theory Spec2Isabelle
  imports Main
begin

section \<open>Text\<close>

text \<open>
  A Python \<open>str\<close> is modelled as a \<open>string\<close>; one \<open>char\<close> stands for one code point
  in the range 0 to 255. On that range \<open>str.isspace\<close> holds for exactly the twelve
  characters listed below, and \<open>str.strip()\<close> removes the leading and the trailing
  characters for which it holds.
\<close>

definition isspace :: "char \<Rightarrow> bool" where
  "isspace c \<longleftrightarrow>
     c \<in> set [CHR 0x09, CHR 0x0A, CHR 0x0B, CHR 0x0C, CHR 0x0D, CHR 0x1C, CHR 0x1D,
              CHR 0x1E, CHR 0x1F, CHR 0x20, CHR 0x85, CHR 0xA0]"

definition strip :: "string \<Rightarrow> string" where
  "strip s = rev (dropWhile isspace (rev (dropWhile isspace s)))"

text \<open>
  \<open>open(path)\<close> opens a file in text mode with \<open>newline=None\<close>: on reading, the line
  endings \<open>\r\n\<close> and \<open>\r\<close> are both translated into \<open>\n\<close>. On writing, \<open>\n\<close> is
  translated into the line separator of the platform, which is \<open>\n\<close> itself on the Linux
  hosts the script is deployed to, so that a write stores the text as it is.
\<close>

fun universal_newlines :: "string \<Rightarrow> string" where
  "universal_newlines (c # d # cs) =
     (if c = CHR 0x0D \<and> d = CHR 0x0A then CHR 0x0A # universal_newlines cs
      else if c = CHR 0x0D then CHR 0x0A # universal_newlines (d # cs)
      else c # universal_newlines (d # cs))"
| "universal_newlines [c] = (if c = CHR 0x0D then [CHR 0x0A] else [c])"
| "universal_newlines [] = []"

section \<open>The world of the script\<close>

text \<open>
  The exceptions that the calls of \<open>deploy_tileset\<close> raise: \<open>requests.get\<close> raises on a
  transport failure, \<open>raise_for_status\<close> on a 4xx or 5xx status, \<open>open\<close> and \<open>unlink\<close>
  on a missing file, and \<open>Path.exists\<close> when the stat call behind it fails for a reason
  other than that the path names nothing.
\<close>

datatype error = ConnectionError | HTTPError nat | FileNotFoundError string | OSError string

datatype response = Response (status_code: nat) (resp_text: string)

text \<open>
  The environment of a run. \<open>get_url\<close> is the remote side: what \<open>requests.get\<close> yields
  for each URL, a response or the exception it raises; the script asks for each URL once
  in a run, and every request is taken to come to an end. \<open>stat_fails\<close> holds for the
  paths at which the stat call of \<open>Path.exists\<close> fails with an error that \<open>exists\<close> does
  not take for an absent file (it takes ENOENT, ENOTDIR, EBADF and ELOOP so, and raises
  \<open>OSError\<close> on every other), such as a name or a path longer than the file system
  allows. Which paths these are depends on the file system, so it is part of the
  environment, and it does not change during a run.
\<close>

record env =
  get_url :: "string \<Rightarrow> error + response"
  stat_fails :: "string \<Rightarrow> bool"

text \<open>
  The file system maps a path to the content of the regular file there. Distinct path
  strings denote distinct files (no links), and only the script changes the files while
  it runs.
\<close>

type_synonym fs = "string \<rightharpoonup> string"

text \<open>What the script does to the outside, in the order in which it does it.\<close>

datatype event =
    Get string
  | Print string
  | Exists string bool
  | Read string
  | Unlink string
  | Open_w string
  | Write string string

record state =
  files :: fs
  trace :: "event list"

text \<open>
  A statement runs in a state and either returns a value or raises; in both cases the
  effects it had so far stay.
\<close>

type_synonym 'a io = "state \<Rightarrow> (error + 'a) \<times> state"

definition return_io :: "'a \<Rightarrow> 'a io" where
  "return_io x = (\<lambda>s. (Inr x, s))"

definition bind_io :: "'a io \<Rightarrow> ('a \<Rightarrow> 'b io) \<Rightarrow> 'b io" where
  "bind_io m f = (\<lambda>s. case m s of (Inl e, s') \<Rightarrow> (Inl e, s') | (Inr x, s') \<Rightarrow> f x s')"

definition emit :: "event \<Rightarrow> state \<Rightarrow> state" where
  "emit e s = s\<lparr>trace := trace s @ [e]\<rparr>"

definition requests_get :: "env \<Rightarrow> string \<Rightarrow> response io" where
  "requests_get n url = (\<lambda>s. (get_url n url, emit (Get url) s))"

text \<open>\<open>Response.raise_for_status\<close> of the requests library.\<close>

definition raise_for_status :: "response \<Rightarrow> unit io" where
  "raise_for_status r =
     (\<lambda>s. if 400 \<le> status_code r \<and> status_code r < 600
          then (Inl (HTTPError (status_code r)), s) else (Inr (), s))"

definition print :: "string \<Rightarrow> unit io" where
  "print msg = (\<lambda>s. (Inr (), emit (Print msg) s))"

text \<open>
  \<open>Path(p).exists()\<close>: it raises where the stat call fails, and otherwise says whether
  the path names a file.
\<close>

definition path_exists :: "env \<Rightarrow> string \<Rightarrow> bool io" where
  "path_exists n p =
     (\<lambda>s. if stat_fails n p then (Inl (OSError p), s)
          else (Inr (files s p \<noteq> None), emit (Exists p (files s p \<noteq> None)) s))"

text \<open>\<open>with open(p) as fp: fp.read()\<close>\<close>

definition read_file :: "string \<Rightarrow> string io" where
  "read_file p =
     (\<lambda>s. case files s p of
            None \<Rightarrow> (Inl (FileNotFoundError p), s)
          | Some c \<Rightarrow> (Inr (universal_newlines c), emit (Read p) s))"

definition unlink :: "string \<Rightarrow> unit io" where
  "unlink p =
     (\<lambda>s. case files s p of
            None \<Rightarrow> (Inl (FileNotFoundError p), s)
          | Some c \<Rightarrow> (Inr (), emit (Unlink p) (s\<lparr>files := (files s)(p := None)\<rparr>)))"

text \<open>
  \<open>open(p, 'w')\<close> creates the file or truncates it to length zero; \<open>fp.write(t)\<close>
  followed by the close at the end of the \<open>with\<close> block puts \<open>t\<close> after what the file
  holds then.
\<close>

definition open_w :: "string \<Rightarrow> unit io" where
  "open_w p = (\<lambda>s. (Inr (), emit (Open_w p) (s\<lparr>files := (files s)(p \<mapsto> [])\<rparr>)))"

definition fp_write :: "string \<Rightarrow> string \<Rightarrow> unit io" where
  "fp_write p t =
     (\<lambda>s. (Inr (), emit (Write p t)
              (s\<lparr>files := (files s)(p \<mapsto> (case files s p of None \<Rightarrow> [] | Some c \<Rightarrow> c) @ t)\<rparr>)))"

definition write_file :: "string \<Rightarrow> string \<Rightarrow> unit io" where
  "write_file p t = bind_io (open_w p) (\<lambda>_. fp_write p t)"

section \<open>deploy\_tileset\<close>

definition version_url :: "string \<Rightarrow> string" where
  "version_url area = ''https://assets.openfreemap.com/versions/deployed_tiles_'' @ area @ ''.txt''"

definition local_version_file :: "string \<Rightarrow> string" where
  "local_version_file area = ''/data/ofm/config/deployed_tiles_'' @ area @ ''.txt''"

definition mnt_file :: "string \<Rightarrow> string \<Rightarrow> string" where
  "mnt_file area remote_version = ''/mnt/ofm/'' @ area @ ''-'' @ remote_version @ ''/metadata.json''"

text \<open>
  The body of the loop for one area: it takes the flag \<open>need_nginx_sync\<close> as the loop has
  it so far and returns the flag for the next iteration. Both \<open>continue\<close> statements end
  the body there.
\<close>

definition deploy_area :: "env \<Rightarrow> string \<Rightarrow> bool \<Rightarrow> bool io" where
  "deploy_area n area need_nginx_sync =
     bind_io (requests_get n (version_url area)) (\<lambda>r.
     bind_io (raise_for_status r) (\<lambda>_.
     let remote_version = strip (resp_text r) in
     bind_io (print (''  remote version for '' @ area @ '': '' @ remote_version)) (\<lambda>_.
     bind_io (path_exists n (local_version_file area)) (\<lambda>ex.
     bind_io (if \<not> ex then return_io None
              else bind_io (read_file (local_version_file area)) (\<lambda>c. return_io (Some c)))
       (\<lambda>local_version_start.
     if remote_version = [] then
       bind_io (print ''  remote version not specified'') (\<lambda>_.
       if local_version_start \<noteq> None
       then bind_io (unlink (local_version_file area)) (\<lambda>_. return_io True)
       else return_io need_nginx_sync)
     else
       bind_io (path_exists n (mnt_file area remote_version)) (\<lambda>mnt_ex.
       if \<not> mnt_ex then
         bind_io (print ''  local version does not exist'') (\<lambda>_.
         if local_version_start \<noteq> None
         then bind_io (unlink (local_version_file area)) (\<lambda>_. return_io True)
         else return_io need_nginx_sync)
       else if Some remote_version \<noteq> local_version_start then
         bind_io (write_file (local_version_file area) remote_version) (\<lambda>_. return_io True)
       else return_io need_nginx_sync))))))"

fun deploy_loop :: "env \<Rightarrow> string list \<Rightarrow> bool \<Rightarrow> bool io" where
  "deploy_loop n [] need_nginx_sync = return_io need_nginx_sync"
| "deploy_loop n (area # areas) need_nginx_sync =
     bind_io (deploy_area n area need_nginx_sync) (deploy_loop n areas)"

definition areas :: "string list" where
  "areas = [''planet'', ''monaco'']"

definition deploy_tileset :: "env \<Rightarrow> bool io" where
  "deploy_tileset n = deploy_loop n areas False"

section \<open>A summary of the loop body\<close>

text \<open>
  The lookup at the head of the loop body: \<open>requests.get\<close>, \<open>raise_for_status\<close> and
  \<open>strip\<close>. It raises or yields the remote version token.
\<close>

definition remote_version :: "env \<Rightarrow> string \<Rightarrow> error + string" where
  "remote_version n area =
     (case get_url n (version_url area) of
        Inl e \<Rightarrow> Inl e
      | Inr r \<Rightarrow> if 400 \<le> status_code r \<and> status_code r < 600
                then Inl (HTTPError (status_code r)) else Inr (strip (resp_text r)))"

text \<open>
  How far an iteration gets before it changes anything: it raises at the lookup, at the
  existence check of the local record, or at the existence check of the metadata file
  (which it makes only for a non-empty token), or it gets through all three with the
  token.
\<close>

definition area_token :: "env \<Rightarrow> string \<Rightarrow> error + string" where
  "area_token n area =
     (case remote_version n area of
        Inl e \<Rightarrow> Inl e
      | Inr v \<Rightarrow>
          if stat_fails n (local_version_file area) then Inl (OSError (local_version_file area))
          else if v \<noteq> [] \<and> stat_fails n (mnt_file area v) then Inl (OSError (mnt_file area v))
          else Inr v)"

text \<open>The value that the body binds to \<open>local_version_start\<close>, from the files it finds.\<close>

definition local_version_start :: "string \<Rightarrow> fs \<Rightarrow> string option" where
  "local_version_start area f = map_option universal_newlines (f (local_version_file area))"

text \<open>
  The two branches that end in \<open>continue\<close>: the remote token is empty, or the metadata
  file of the remote version is not there.
\<close>

definition retires :: "string \<Rightarrow> string \<Rightarrow> fs \<Rightarrow> bool" where
  "retires area v f \<longleftrightarrow> v = [] \<or> f (mnt_file area v) = None"

text \<open>
  What an iteration whose lookup yields \<open>v\<close> does when it starts with the files \<open>f\<close>:
  whether it sets the flag, the files it leaves, and the events it adds. Lemma
  \<open>deploy_area_ok\<close> below proves that the loop body does exactly this.
\<close>

definition area_flag :: "string \<Rightarrow> string \<Rightarrow> fs \<Rightarrow> bool" where
  "area_flag area v f =
     (if retires area v f then f (local_version_file area) \<noteq> None
      else local_version_start area f \<noteq> Some v)"

definition area_files :: "string \<Rightarrow> string \<Rightarrow> fs \<Rightarrow> fs" where
  "area_files area v f =
     (if retires area v f then f(local_version_file area := None)
      else if local_version_start area f \<noteq> Some v then f(local_version_file area \<mapsto> v)
      else f)"

definition area_events :: "string \<Rightarrow> string \<Rightarrow> fs \<Rightarrow> event list" where
  "area_events area v f =
     [Get (version_url area), Print (''  remote version for '' @ area @ '': '' @ v),
      Exists (local_version_file area) (f (local_version_file area) \<noteq> None)]
     @ (if f (local_version_file area) \<noteq> None then [Read (local_version_file area)] else [])
     @ (if v = [] then [Print ''  remote version not specified'']
        else Exists (mnt_file area v) (f (mnt_file area v) \<noteq> None)
             # (if f (mnt_file area v) = None then [Print ''  local version does not exist'']
                else []))
     @ (if retires area v f
        then (if f (local_version_file area) \<noteq> None then [Unlink (local_version_file area)]
              else [])
        else if local_version_start area f \<noteq> Some v
             then [Open_w (local_version_file area), Write (local_version_file area) v]
             else [])"

text \<open>
  The events of an iteration that raises, which starts with the files \<open>f\<close>: the request,
  and after a lookup that succeeded the message, and after a check of the local record
  that answered the check itself and the reading of the record. Lemma \<open>deploy_area_raises\<close>
  below proves that the loop body adds these events and leaves the files as they are.
\<close>

definition area_fail_events :: "env \<Rightarrow> string \<Rightarrow> fs \<Rightarrow> event list" where
  "area_fail_events n area f =
     Get (version_url area)
     # (case remote_version n area of
          Inl e \<Rightarrow> []
        | Inr v \<Rightarrow>
            Print (''  remote version for '' @ area @ '': '' @ v)
            # (if stat_fails n (local_version_file area) then []
               else Exists (local_version_file area) (f (local_version_file area) \<noteq> None)
                    # (if f (local_version_file area) \<noteq> None
                       then [Read (local_version_file area)] else [])))"

text \<open>
  The same for the whole run over the two areas; lemma \<open>deploy_tileset_eq\<close> proves that
  \<open>deploy_tileset\<close> computes it.
\<close>

definition run_result :: "env \<Rightarrow> state \<Rightarrow> (error + bool) \<times> state" where
  "run_result n s =
     (case area_token n ''planet'' of
        Inl e \<Rightarrow> (Inl e, s\<lparr>trace := trace s @ area_fail_events n ''planet'' (files s)\<rparr>)
      | Inr v \<Rightarrow>
          (case area_token n ''monaco'' of
             Inl e \<Rightarrow>
               (Inl e, s\<lparr>files := area_files ''planet'' v (files s),
                          trace := trace s @ area_events ''planet'' v (files s)
                                   @ area_fail_events n ''monaco'' (files s)\<rparr>)
           | Inr w \<Rightarrow>
               (Inr (area_flag ''planet'' v (files s) \<or> area_flag ''monaco'' w (files s)),
                s\<lparr>files := area_files ''monaco'' w (area_files ''planet'' v (files s)),
                   trace := trace s @ area_events ''planet'' v (files s)
                            @ area_events ''monaco'' w (files s)\<rparr>)))"

section \<open>Notions used to state the properties\<close>

text \<open>The events that a run started in \<open>s\<close> adds to the trace.\<close>

definition run_events :: "env \<Rightarrow> state \<Rightarrow> event list" where
  "run_events n s = drop (length (trace s)) (trace (snd (deploy_tileset n s)))"

text \<open>The state in which a run started in \<open>s\<close> ends, whether it returns or raises.\<close>

definition run_state :: "env \<Rightarrow> state \<Rightarrow> state" where
  "run_state n s = snd (deploy_tileset n s)"

text \<open>An event that changes the file at path \<open>p\<close>.\<close>

definition store_event :: "string \<Rightarrow> event \<Rightarrow> bool" where
  "store_event p e =
     (case e of Unlink q \<Rightarrow> q = p | Open_w q \<Rightarrow> q = p | Write q t \<Rightarrow> q = p | _ \<Rightarrow> False)"

text \<open>
  The effect of one event on the files, and of a sequence of events. A run that is
  interrupted after some of its events leaves the files that the replay of these events
  gives.
\<close>

definition apply_event :: "fs \<Rightarrow> event \<Rightarrow> fs" where
  "apply_event f e =
     (case e of
        Unlink p \<Rightarrow> f(p := None)
      | Open_w p \<Rightarrow> f(p \<mapsto> [])
      | Write p t \<Rightarrow> f(p \<mapsto> (case f p of None \<Rightarrow> [] | Some c \<Rightarrow> c) @ t)
      | _ \<Rightarrow> f)"

definition replay :: "event list \<Rightarrow> fs \<Rightarrow> fs" where
  "replay evs f = foldl apply_event f evs"

section \<open>Concrete worlds\<close>

text \<open>
  An environment whose remote side answers the lookups of the two areas with \<open>p\<close> and
  \<open>m\<close> and in which no stat call fails, and a state with the given files and an empty
  trace.
\<close>

definition net_of :: "error + response \<Rightarrow> error + response \<Rightarrow> env" where
  "net_of p m =
     \<lparr>get_url = (\<lambda>url. if url = version_url ''planet'' then p
                       else if url = version_url ''monaco'' then m
                       else Inl ConnectionError),
      stat_fails = (\<lambda>q. False)\<rparr>"

definition state_of :: "(string \<times> string) list \<Rightarrow> state" where
  "state_of fl = \<lparr>files = map_of fl, trace = []\<rparr>"





section \<open>The loop body and the run in closed form\<close>

lemmas io_defs = return_io_def bind_io_def emit_def requests_get_def raise_for_status_def
  print_def path_exists_def read_file_def unlink_def open_w_def fp_write_def write_file_def

lemma local_ne_mnt: "local_version_file a \<noteq> mnt_file b v"
  by (simp add: local_version_file_def mnt_file_def)

lemma local_inj: "local_version_file a = local_version_file b \<longleftrightarrow> a = b"
  by (simp add: local_version_file_def)

lemma deploy_area_fail:
  "remote_version n a = Inl e \<Longrightarrow> deploy_area n a need s = (Inl e, emit (Get (version_url a)) s)"
  by (auto simp: remote_version_def deploy_area_def io_defs Let_def split: sum.splits if_splits)

lemma area_token_lookup: "remote_version n a = Inl e \<Longrightarrow> area_token n a = Inl e"
  by (simp add: area_token_def)

lemma area_fail_events_lookup:
  "remote_version n a = Inl e \<Longrightarrow> area_fail_events n a f = [Get (version_url a)]"
  by (simp add: area_fail_events_def)

lemma area_token_Inr:
  "area_token n a = Inr v \<longleftrightarrow>
     remote_version n a = Inr v \<and> \<not> stat_fails n (local_version_file a)
     \<and> (v \<noteq> [] \<longrightarrow> \<not> stat_fails n (mnt_file a v))"
  by (cases "remote_version n a") (auto simp: area_token_def)

lemma deploy_area_raises:
  assumes "area_token n a = Inl e"
  shows "deploy_area n a need s = (Inl e, s\<lparr>trace := trace s @ area_fail_events n a (files s)\<rparr>)"
proof (cases "remote_version n a")
  case (Inl e')
  with assms have "e' = e" by (simp add: area_token_def)
  with Inl show ?thesis
    by (simp add: deploy_area_fail area_fail_events_lookup emit_def)
next
  case (Inr v)
  then obtain r where r: "get_url n (version_url a) = Inr r"
    "\<not> (400 \<le> status_code r \<and> status_code r < 600)" "strip (resp_text r) = v"
    by (auto simp: remote_version_def split: sum.splits if_splits)
  show ?thesis
  proof (cases "stat_fails n (local_version_file a)")
    case True
    with assms Inr have "e = OSError (local_version_file a)" by (simp add: area_token_def)
    with True Inr r show ?thesis
      by (simp add: deploy_area_def io_defs Let_def area_fail_events_def)
  next
    case False
    with assms Inr have m: "v \<noteq> []" "stat_fails n (mnt_file a v)" "e = OSError (mnt_file a v)"
      by (auto simp: area_token_def split: if_splits)
    show ?thesis
    proof (cases "files s (local_version_file a)")
      case None
      with False Inr r m show ?thesis
        by (simp add: deploy_area_def io_defs Let_def area_fail_events_def)
    next
      case (Some c)
      with False Inr r m show ?thesis
        by (simp add: deploy_area_def io_defs Let_def area_fail_events_def)
    qed
  qed
qed

lemma deploy_area_ok:
  assumes "area_token n a = Inr v"
  shows "deploy_area n a need s =
     (Inr (area_flag a v (files s) \<or> need),
      s\<lparr>files := area_files a v (files s), trace := trace s @ area_events a v (files s)\<rparr>)"
proof -
  from assms have t: "remote_version n a = Inr v" "\<not> stat_fails n (local_version_file a)"
    "v \<noteq> [] \<longrightarrow> \<not> stat_fails n (mnt_file a v)"
    by (simp_all add: area_token_Inr)
  from t(1) obtain r where r: "get_url n (version_url a) = Inr r"
    "\<not> (400 \<le> status_code r \<and> status_code r < 600)" "strip (resp_text r) = v"
    by (auto simp: remote_version_def split: sum.splits if_splits)
  show ?thesis
  proof (cases "files s (local_version_file a)")
    case None
    then have "(files s)(local_version_file a := None) = files s" by auto
    with None show ?thesis using r t(2,3) local_ne_mnt[of a a v]
      by (auto simp: deploy_area_def io_defs Let_def area_flag_def area_files_def
          area_events_def retires_def local_version_start_def)
  next
    case (Some c)
    then show ?thesis using r t(2,3) local_ne_mnt[of a a v]
      by (auto simp: deploy_area_def io_defs Let_def area_flag_def area_files_def
          area_events_def retires_def local_version_start_def)
  qed
qed

lemma area_files_other: "p \<noteq> local_version_file a \<Longrightarrow> area_files a v f p = f p"
  by (simp add: area_files_def)

lemma retires_frame: "a \<noteq> b \<Longrightarrow> retires b w (area_files a v f) = retires b w f"
  using local_ne_mnt[of a b w] by (simp add: retires_def area_files_other)

lemma start_frame:
  "a \<noteq> b \<Longrightarrow> local_version_start b (area_files a v f) = local_version_start b f"
  by (simp add: local_version_start_def area_files_other local_inj)

lemma area_flag_frame: "a \<noteq> b \<Longrightarrow> area_flag b w (area_files a v f) = area_flag b w f"
  by (simp add: area_flag_def retires_frame start_frame area_files_other local_inj)

lemma area_events_frame: "a \<noteq> b \<Longrightarrow> area_events b w (area_files a v f) = area_events b w f"
  using local_ne_mnt[of a b w]
  by (simp add: area_events_def retires_frame start_frame area_files_other local_inj)

lemma area_fail_events_frame:
  "a \<noteq> b \<Longrightarrow> area_fail_events n b (area_files a v f) = area_fail_events n b f"
  by (cases "remote_version n b") (simp_all add: area_fail_events_def area_files_other local_inj)

lemma deploy_tileset_eq: "deploy_tileset n s = run_result n s"
proof (cases "area_token n ''planet''")
  case (Inl e)
  then show ?thesis
    by (simp add: deploy_tileset_def areas_def run_result_def bind_io_def deploy_area_raises)
next
  case p: (Inr v)
  have ne: "''planet'' \<noteq> ''monaco''" by simp
  show ?thesis
  proof (cases "area_token n ''monaco''")
    case (Inl e)
    with p show ?thesis
      by (simp add: deploy_tileset_def areas_def run_result_def bind_io_def deploy_area_raises
          deploy_area_ok area_fail_events_frame[OF ne])
  next
    case (Inr w)
    with p show ?thesis
      by (auto simp: deploy_tileset_def areas_def run_result_def bind_io_def return_io_def
          deploy_area_ok area_flag_frame[OF ne] area_events_frame[OF ne])
  qed
qed

lemma run_trace: "trace (run_state n s) = trace s @ run_events n s"
  by (simp add: run_state_def run_events_def deploy_tileset_eq run_result_def split: sum.splits)

lemma run_events_eq:
  "run_events n s =
     (case area_token n ''planet'' of
        Inl e \<Rightarrow> area_fail_events n ''planet'' (files s)
      | Inr v \<Rightarrow>
          (case area_token n ''monaco'' of
             Inl e \<Rightarrow> area_events ''planet'' v (files s) @ area_fail_events n ''monaco'' (files s)
           | Inr w \<Rightarrow> area_events ''planet'' v (files s) @ area_events ''monaco'' w (files s)))"
  by (simp add: run_events_def deploy_tileset_eq run_result_def split: sum.splits)

lemma run_files_eq:
  "files (run_state n s) =
     (case area_token n ''planet'' of
        Inl e \<Rightarrow> files s
      | Inr v \<Rightarrow>
          (case area_token n ''monaco'' of
             Inl e \<Rightarrow> area_files ''planet'' v (files s)
           | Inr w \<Rightarrow> area_files ''monaco'' w (area_files ''planet'' v (files s))))"
  by (simp add: run_state_def deploy_tileset_eq run_result_def split: sum.splits)

lemma run_flag_eq:
  "fst (deploy_tileset n s) =
     (case area_token n ''planet'' of
        Inl e \<Rightarrow> Inl e
      | Inr v \<Rightarrow>
          (case area_token n ''monaco'' of
             Inl e \<Rightarrow> Inl e
           | Inr w \<Rightarrow> Inr (area_flag ''planet'' v (files s) \<or> area_flag ''monaco'' w (files s))))"
  by (simp add: deploy_tileset_eq run_result_def split: sum.splits)

lemma areas_set: "a \<in> set areas \<longleftrightarrow> a = ''planet'' \<or> a = ''monaco''"
  by (simp add: areas_def)

lemma areas_split:
  assumes "areas = pre @ a # post"
  shows "(pre = [] \<and> a = ''planet'' \<and> post = [''monaco''])
       \<or> (pre = [''planet''] \<and> a = ''monaco'' \<and> post = [])"
  using assms by (auto simp: areas_def Cons_eq_append_conv)

lemma deploy_loop_single: "deploy_loop n [x] need s = deploy_area n x need s"
  by (simp add: bind_io_def return_io_def split: prod.splits sum.splits)

lemma deploy_loop_one_ok:
  assumes "fst (deploy_loop n [x] need s) = Inr b"
  shows "\<exists>w. area_token n x = Inr w"
proof (cases "area_token n x")
  case (Inl e)
  with assms show ?thesis
    by (simp add: deploy_loop_single deploy_area_raises del: deploy_loop.simps)
next
  case (Inr w)
  then show ?thesis by blast
qed

text \<open>
  The loop comes to an area of the list when the iterations of the areas before it have
  returned: to planet always, to monaco when the iteration of planet gets through.
\<close>

lemma comes_to:
  assumes "areas = pre @ a # post" and "fst (deploy_loop n pre False s) = Inr b"
  shows "a = ''planet'' \<or> (a = ''monaco'' \<and> (\<exists>w. area_token n ''planet'' = Inr w))"
  using areas_split[OF assms(1)]
proof (elim disjE conjE)
  assume "a = ''planet''"
  then show ?thesis by simp
next
  assume "pre = [''planet'']" "a = ''monaco''"
  with assms(2) deploy_loop_one_ok[of n "''planet''" False s b] show ?thesis by simp
qed

lemma comes_to_start:
  assumes "areas = pre @ a # post" and "fst (deploy_loop n pre False s) = Inr b"
  shows "files (snd (deploy_loop n pre False s)) (local_version_file a) = files s (local_version_file a)"
    and "files (snd (deploy_loop n pre False s)) (mnt_file a v) = files s (mnt_file a v)"
proof -
  have ne: "''planet'' \<noteq> ''monaco''" by simp
  from areas_split[OF assms(1)]
  have "files (snd (deploy_loop n pre False s)) (local_version_file a) = files s (local_version_file a)
      \<and> files (snd (deploy_loop n pre False s)) (mnt_file a v) = files s (mnt_file a v)"
  proof (elim disjE conjE)
    assume "pre = []"
    then show ?thesis by (simp add: return_io_def)
  next
    assume c: "pre = [''planet'']" "a = ''monaco''"
    with assms(2) obtain w where "area_token n ''planet'' = Inr w"
      using deploy_loop_one_ok by blast
    with c local_ne_mnt[of "''planet''" "''monaco''" v] show ?thesis
      by (simp add: deploy_loop_single deploy_area_ok area_files_other local_inj
          del: deploy_loop.simps)
  qed
  then show "files (snd (deploy_loop n pre False s)) (local_version_file a)
      = files s (local_version_file a)"
    and "files (snd (deploy_loop n pre False s)) (mnt_file a v) = files s (mnt_file a v)"
    by simp_all
qed

lemma Get_no_store: "\<not> store_event p (Get u)"
  by (simp add: store_event_def)

lemma area_fail_events_no_store: "e \<in> set (area_fail_events n a f) \<Longrightarrow> \<not> store_event p e"
  by (cases "remote_version n a") (auto simp: area_fail_events_def store_event_def split: if_splits)

lemma area_events_no_store:
  "a \<noteq> b \<Longrightarrow> e \<in> set (area_events b w f) \<Longrightarrow> \<not> store_event (local_version_file a) e"
  unfolding area_events_def store_event_def
  by (auto simp: local_inj split: if_splits)

lemma area_files_self_other:
  "a \<noteq> b \<Longrightarrow> area_files b w f (local_version_file a) = f (local_version_file a)"
  by (simp add: area_files_other local_inj)

lemma area_files_twice:
  "a \<noteq> b \<Longrightarrow> area_files b w (area_files a v f) (local_version_file b)
     = area_files b w f (local_version_file b)"
  by (simp add: area_files_def[of b] retires_frame start_frame area_files_other local_inj)

lemma run_area_files:
  assumes "a = ''planet'' \<or> (a = ''monaco'' \<and> (\<exists>w. area_token n ''planet'' = Inr w))"
    and "area_token n a = Inr v"
  shows "files (run_state n s) (local_version_file a)
           = area_files a v (files s) (local_version_file a)"
proof -
  have ne: "''planet'' \<noteq> ''monaco''" by simp
  from assms(1) show ?thesis
  proof (elim disjE conjE exE)
    assume a: "a = ''planet''"
    show ?thesis
    proof (cases "area_token n ''monaco''")
      case (Inl e)
      with a assms(2) show ?thesis by (simp add: run_files_eq)
    next
      case (Inr w)
      with a assms(2) show ?thesis by (simp add: run_files_eq area_files_self_other)
    qed
  next
    fix w assume a: "a = ''monaco''" and w: "area_token n ''planet'' = Inr w"
    with assms(2) show ?thesis by (simp add: run_files_eq area_files_twice[OF ne])
  qed
qed

lemma run_area_flag:
  assumes "a = ''planet'' \<or> (a = ''monaco'' \<and> (\<exists>w. area_token n ''planet'' = Inr w))"
    and "area_token n a = Inr v" and "area_flag a v (files s)"
  shows "fst (deploy_tileset n s) \<noteq> Inr False"
proof -
  from assms(1) show ?thesis
  proof (elim disjE conjE exE)
    assume a: "a = ''planet''"
    show ?thesis
    proof (cases "area_token n ''monaco''")
      case (Inl e)
      with a assms(2) show ?thesis by (simp add: run_flag_eq)
    next
      case (Inr w)
      with a assms(2,3) show ?thesis by (simp add: run_flag_eq)
    qed
  next
    fix w assume a: "a = ''monaco''" and w: "area_token n ''planet'' = Inr w"
    with assms(2,3) show ?thesis by (simp add: run_flag_eq)
  qed
qed

lemma run_area_events:
  assumes "a = ''planet'' \<or> (a = ''monaco'' \<and> (\<exists>w. area_token n ''planet'' = Inr w))"
    and "area_token n a = Inr v"
  shows "\<exists>E1 E2. run_events n s = E1 @ area_events a v (files s) @ E2
           \<and> (\<forall>e\<in>set E1. \<not> store_event (local_version_file a) e)
           \<and> (\<forall>e\<in>set E2. \<not> store_event (local_version_file a) e)"
proof -
  have ne: "''planet'' \<noteq> ''monaco''" "''monaco'' \<noteq> ''planet''" by simp_all
  from assms(1) show ?thesis
  proof (elim disjE conjE exE)
    assume a: "a = ''planet''"
    show ?thesis
    proof (cases "area_token n ''monaco''")
      case (Inl e)
      have "run_events n s
          = [] @ area_events a v (files s) @ area_fail_events n ''monaco'' (files s)"
        using a Inl assms(2) by (simp add: run_events_eq)
      moreover have "\<forall>e\<in>set (area_fail_events n ''monaco'' (files s)).
          \<not> store_event (local_version_file a) e"
        using area_fail_events_no_store by blast
      moreover have "\<forall>e\<in>set []. \<not> store_event (local_version_file a) e" by simp
      ultimately show ?thesis by blast
    next
      case (Inr w)
      have "run_events n s = [] @ area_events a v (files s) @ area_events ''monaco'' w (files s)"
        using a Inr assms(2) by (simp add: run_events_eq)
      moreover have "\<forall>e\<in>set (area_events ''monaco'' w (files s)). \<not> store_event (local_version_file a) e"
        using area_events_no_store[OF ne(1)] a by blast
      moreover have "\<forall>e\<in>set []. \<not> store_event (local_version_file a) e" by simp
      ultimately show ?thesis by blast
    qed
  next
    fix w assume a: "a = ''monaco''" and w: "area_token n ''planet'' = Inr w"
    have "run_events n s = area_events ''planet'' w (files s) @ area_events a v (files s) @ []"
      using a w assms(2) by (simp add: run_events_eq)
    moreover have "\<forall>e\<in>set (area_events ''planet'' w (files s)). \<not> store_event (local_version_file a) e"
      using area_events_no_store[OF ne(2)] a by blast
    moreover have "\<forall>e\<in>set []. \<not> store_event (local_version_file a) e" by simp
    ultimately show ?thesis by blast
  qed
qed

lemmas world_defs = net_of_def state_of_def version_url_def local_version_file_def mnt_file_def
  remote_version_def area_token_def strip_def isspace_def areas_def

lemmas run_defs = run_files_eq run_flag_eq run_events_eq area_files_def area_flag_def
  area_events_def area_fail_events_def retires_def local_version_start_def

lemma area_events_unlink:
  "retires a v f \<Longrightarrow> f (local_version_file a) \<noteq> None \<Longrightarrow>
   Unlink (local_version_file a) \<in> set (area_events a v f)"
  by (simp add: area_events_def)

lemma area_events_write:
  "\<not> retires a v f \<Longrightarrow> local_version_start a f \<noteq> Some v \<Longrightarrow>
   Write (local_version_file a) v \<in> set (area_events a v f)"
  by (simp add: area_events_def)

lemma area_events_quiet:
  "\<not> area_flag a v f \<Longrightarrow> e \<in> set (area_events a v f) \<Longrightarrow> \<not> store_event p e"
  by (auto simp: area_events_def area_flag_def store_event_def split: if_splits)

lemma area_events_no_write:
  "retires a v f \<Longrightarrow> e \<in> set (area_events a v f) \<Longrightarrow> e \<noteq> Open_w p \<and> e \<noteq> Write p t"
  by (auto simp: area_events_def split: if_splits)

lemma store_event_simps:
  "store_event p (Unlink q) \<longleftrightarrow> q = p"
  "store_event p (Open_w q) \<longleftrightarrow> q = p"
  "store_event p (Write q t) \<longleftrightarrow> q = p"
  by (simp_all add: store_event_def)

lemma run_area_quiet:
  assumes "a = ''planet'' \<or> (a = ''monaco'' \<and> (\<exists>w. area_token n ''planet'' = Inr w))"
    and "area_token n a = Inr v" and "\<not> area_flag a v (files s)"
  shows "\<forall>e\<in>set (run_events n s). \<not> store_event (local_version_file a) e"
proof -
  from run_area_events[OF assms(1,2)] obtain E1 E2 where
    "run_events n s = E1 @ area_events a v (files s) @ E2"
    "\<forall>e\<in>set E1. \<not> store_event (local_version_file a) e"
    "\<forall>e\<in>set E2. \<not> store_event (local_version_file a) e" by blast
  with area_events_quiet[OF assms(3)] show ?thesis by auto
qed

lemma run_area_has:
  assumes "a = ''planet'' \<or> (a = ''monaco'' \<and> (\<exists>w. area_token n ''planet'' = Inr w))"
    and "area_token n a = Inr v" and "e \<in> set (area_events a v (files s))"
  shows "e \<in> set (run_events n s)"
  using run_area_events[OF assms(1,2), of s] assms(3) by auto

lemma run_area_no_write:
  assumes "a = ''planet'' \<or> (a = ''monaco'' \<and> (\<exists>w. area_token n ''planet'' = Inr w))"
    and "area_token n a = Inr v" and "retires a v (files s)"
    and "e \<in> set (run_events n s)"
  shows "e \<noteq> Open_w (local_version_file a) \<and> e \<noteq> Write (local_version_file a) t"
proof -
  from run_area_events[OF assms(1,2)] obtain E1 E2 where
    "run_events n s = E1 @ area_events a v (files s) @ E2"
    "\<forall>e\<in>set E1. \<not> store_event (local_version_file a) e"
    "\<forall>e\<in>set E2. \<not> store_event (local_version_file a) e" by blast
  with area_events_no_write[OF assms(3)] assms(4) show ?thesis
    by (auto simp: store_event_simps)
qed

text \<open>
  What the answers of the checks say about the environment and the files: a check that
  answers did not fail, and its answer is whether the file is there.
\<close>

lemma path_exists_answer:
  "fst (path_exists n p s) = Inr x \<longleftrightarrow> \<not> stat_fails n p \<and> x = (files s p \<noteq> None)"
  by (auto simp: path_exists_def)

lemma area_token_checks:
  assumes "remote_version n a = Inr v"
    and "fst (path_exists n (local_version_file a) s) = Inr x"
    and "v \<noteq> [] \<Longrightarrow> fst (path_exists n (mnt_file a v) s) = Inr y"
  shows "area_token n a = Inr v"
  using assms by (auto simp: area_token_Inr path_exists_answer)


text \<open>
  An iteration looks at the files only at the local record of its area and at the
  metadata file of the token, and the earlier iterations leave both as they were.
\<close>

lemma area_flag_cong:
  assumes "f (local_version_file a) = g (local_version_file a)" "f (mnt_file a v) = g (mnt_file a v)"
  shows "area_flag a v f = area_flag a v g"
  using assms by (simp add: area_flag_def retires_def local_version_start_def)

lemma area_run:
  assumes "areas = pre @ a # post" and "fst (deploy_loop n pre False s) = Inr b"
    and "area_token n a = Inr v"
  shows "files (run_state n s) (local_version_file a)
           = area_files a v (files s) (local_version_file a)"
    and "fst (deploy_area n a b (snd (deploy_loop n pre False s)))
           = Inr (area_flag a v (files s) \<or> b)"
    and "area_flag a v (files s) \<Longrightarrow> fst (deploy_tileset n s) \<noteq> Inr False"
    and "\<And>e. e \<in> set (area_events a v (files s)) \<Longrightarrow> e \<in> set (run_events n s)"
    and "\<not> area_flag a v (files s) \<Longrightarrow>
           \<forall>e\<in>set (run_events n s). \<not> store_event (local_version_file a) e"
    and "\<And>e t. retires a v (files s) \<Longrightarrow> e \<in> set (run_events n s) \<Longrightarrow>
           e \<noteq> Open_w (local_version_file a) \<and> e \<noteq> Write (local_version_file a) t"
proof -
  note c = comes_to[OF assms(1,2)]
  show "files (run_state n s) (local_version_file a)
           = area_files a v (files s) (local_version_file a)"
    by (rule run_area_files[OF c assms(3)])
  have "area_flag a v (files (snd (deploy_loop n pre False s))) = area_flag a v (files s)"
    by (rule area_flag_cong) (rule comes_to_start[OF assms(1,2)])+
  then show "fst (deploy_area n a b (snd (deploy_loop n pre False s)))
           = Inr (area_flag a v (files s) \<or> b)"
    by (simp add: deploy_area_ok[OF assms(3)])
  show "area_flag a v (files s) \<Longrightarrow> fst (deploy_tileset n s) \<noteq> Inr False"
    by (rule run_area_flag[OF c assms(3)])
  show "\<And>e. e \<in> set (area_events a v (files s)) \<Longrightarrow> e \<in> set (run_events n s)"
    by (rule run_area_has[OF c assms(3)])
  show "\<not> area_flag a v (files s) \<Longrightarrow>
           \<forall>e\<in>set (run_events n s). \<not> store_event (local_version_file a) e"
    by (rule run_area_quiet[OF c assms(3)])
  show "\<And>e t. retires a v (files s) \<Longrightarrow> e \<in> set (run_events n s) \<Longrightarrow>
           e \<noteq> Open_w (local_version_file a) \<and> e \<noteq> Write (local_version_file a) t"
    by (rule run_area_no_write[OF c assms(3)])
qed

section \<open>Names that are too long\<close>










section \<open>Retiring a version whose files are missing\<close>




section \<open>A remote version whose files are missing, next to a local record\<close>

text \<open>
  Scenario 3 of the specification: area planet has the local record v3, the remote
  version is v4 and the metadata file of v4 is not there. The run does not leave the
  record alone: it deletes the record and returns \<open>True\<close>.
\<close>

theorem unavailable_candidate_counterexample:
  "files (state_of [(local_version_file ''planet'', ''v3'')]) (local_version_file ''planet'')
     = Some ''v3''
   \<and> remote_version (net_of (Inr (Response 200 ''v4'')) (Inr (Response 200 []))) ''planet''
       = Inr ''v4''
   \<and> files (state_of [(local_version_file ''planet'', ''v3'')]) (mnt_file ''planet'' ''v4'') = None
   \<and> files (run_state (net_of (Inr (Response 200 ''v4'')) (Inr (Response 200 [])))
        (state_of [(local_version_file ''planet'', ''v3'')])) (local_version_file ''planet'') = None
   \<and> fst (deploy_tileset (net_of (Inr (Response 200 ''v4'')) (Inr (Response 200 [])))
        (state_of [(local_version_file ''planet'', ''v3'')])) = Inr True"
  by (simp add: run_defs world_defs)

text \<open>
  Claim C2, as amended. Take an area that the loop comes to (the iterations of the areas
  before it in the list have returned), with a local record \<open>v1\<close> that the existence
  check of the record finds, whose lookup yields a different non-empty version \<open>v2\<close>,
  and whose existence check of the metadata file of \<open>v2\<close> answers that the file is not
  there. The run deletes the local record: an \<open>Unlink\<close> of the record is among its events
  and the record is gone when the run ends. The iteration of the area returns the flag
  \<open>True\<close>, and the run does not return \<open>False\<close>.
\<close>

theorem unavailable_candidate_retires:
  assumes "areas = pre @ a # post" and "fst (deploy_loop n pre False s) = Inr b"
    and "files s (local_version_file a) = Some v1"
    and "fst (path_exists n (local_version_file a) s) = Inr True"
    and "remote_version n a = Inr v2" and "v2 \<noteq> []" and "v2 \<noteq> v1"
    and "fst (path_exists n (mnt_file a v2) s) = Inr False"
  shows "files (run_state n s) (local_version_file a) = None
       \<and> Unlink (local_version_file a) \<in> set (run_events n s)
       \<and> fst (deploy_area n a b (snd (deploy_loop n pre False s))) = Inr True
       \<and> fst (deploy_tileset n s) \<noteq> Inr False"
proof -
  have m: "\<not> stat_fails n (mnt_file a v2)" "files s (mnt_file a v2) = None"
    using assms(8) by (simp_all add: path_exists_answer)
  have l: "\<not> stat_fails n (local_version_file a)"
    using assms(4) by (simp add: path_exists_answer)
  have t: "area_token n a = Inr v2" using assms(5) l m(1) by (simp add: area_token_Inr)
  have r: "retires a v2 (files s)" using m(2) by (simp add: retires_def)
  have q: "area_flag a v2 (files s)" using r assms(3) by (simp add: area_flag_def)
  note R = area_run[OF assms(1,2) t]
  have "files (run_state n s) (local_version_file a) = None"
    using R(1) r by (simp add: area_files_def)
  moreover have "Unlink (local_version_file a) \<in> set (run_events n s)"
    using R(4)[OF area_events_unlink[OF r]] assms(3) by simp
  ultimately show ?thesis using R(2) R(3)[OF q] q by simp
qed

theorem unavailable_candidate_retires_witness:
  "areas = [''planet''] @ ''monaco'' # []
   \<and> fst (deploy_loop (net_of (Inr (Response 200 [])) (Inr (Response 200 ''v9''))) [''planet'']
        False (state_of [(local_version_file ''monaco'', ''v8'')])) = Inr False
   \<and> files (state_of [(local_version_file ''monaco'', ''v8'')]) (local_version_file ''monaco'')
       = Some ''v8''
   \<and> fst (path_exists (net_of (Inr (Response 200 [])) (Inr (Response 200 ''v9'')))
        (local_version_file ''monaco'') (state_of [(local_version_file ''monaco'', ''v8'')]))
       = Inr True
   \<and> remote_version (net_of (Inr (Response 200 [])) (Inr (Response 200 ''v9''))) ''monaco''
       = Inr ''v9''
   \<and> fst (path_exists (net_of (Inr (Response 200 [])) (Inr (Response 200 ''v9'')))
        (mnt_file ''monaco'' ''v9'') (state_of [(local_version_file ''monaco'', ''v8'')]))
       = Inr False
   \<and> files (run_state (net_of (Inr (Response 200 [])) (Inr (Response 200 ''v9'')))
        (state_of [(local_version_file ''monaco'', ''v8'')])) (local_version_file ''monaco'') = None
   \<and> Unlink (local_version_file ''monaco'')
        \<in> set (run_events (net_of (Inr (Response 200 [])) (Inr (Response 200 ''v9'')))
             (state_of [(local_version_file ''monaco'', ''v8'')]))
   \<and> fst (deploy_tileset (net_of (Inr (Response 200 [])) (Inr (Response 200 ''v9'')))
        (state_of [(local_version_file ''monaco'', ''v8'')])) \<noteq> Inr False"
proof -
  let ?n = "net_of (Inr (Response 200 [])) (Inr (Response 200 ''v9''))"
  let ?s = "state_of [(local_version_file ''monaco'', ''v8'')]"
  have p: "area_token ?n ''planet'' = Inr []" by (simp add: world_defs)
  have h1: "areas = [''planet''] @ ''monaco'' # []" by (simp add: areas_def)
  have h2: "fst (deploy_loop ?n [''planet''] False ?s) = Inr False"
    unfolding deploy_loop_single
    by (simp add: deploy_area_ok[OF p] area_flag_def retires_def) (simp add: world_defs)
  have h3: "files ?s (local_version_file ''monaco'') = Some ''v8''" by (simp add: world_defs)
  have h4: "fst (path_exists ?n (local_version_file ''monaco'') ?s) = Inr True"
    by (simp add: path_exists_def world_defs)
  have h5: "remote_version ?n ''monaco'' = Inr ''v9''" by (simp add: world_defs)
  have h6: "''v9'' \<noteq> []" "''v9'' \<noteq> ''v8''" by simp_all
  have h7: "fst (path_exists ?n (mnt_file ''monaco'' ''v9'') ?s) = Inr False"
    by (simp add: path_exists_def world_defs)
  from unavailable_candidate_retires[OF h1 h2 h3 h4 h5 h6 h7]
  have "files (run_state ?n ?s) (local_version_file ''monaco'') = None
      \<and> Unlink (local_version_file ''monaco'') \<in> set (run_events ?n ?s)
      \<and> fst (deploy_tileset ?n ?s) \<noteq> Inr False" by blast
  with h1 h2 h3 h4 h5 h7 show ?thesis by blast
qed

lemma version_url_inj: "version_url a = version_url b \<longleftrightarrow> a = b"
  by (simp add: version_url_def)

section \<open>An empty remote version\<close>




section \<open>Stripping and newline translation\<close>

lemma strip_prefix:
  "dropWhile isspace t = strip t @ rev (takeWhile isspace (rev (dropWhile isspace t)))"
proof -
  have "rev (takeWhile isspace (rev (dropWhile isspace t))
             @ dropWhile isspace (rev (dropWhile isspace t))) = dropWhile isspace t"
    by (simp only: takeWhile_dropWhile_id rev_rev_ident)
  then show ?thesis by (simp only: rev_append strip_def)
qed

lemma strip_hd: assumes "strip t \<noteq> []" shows "\<not> isspace (hd (strip t))"
proof -
  have ne: "dropWhile isspace t \<noteq> []"
  proof
    assume "dropWhile isspace t = []"
    then have "strip t = []" by (simp only: strip_def rev.simps dropWhile.simps)
    with assms show False by simp
  qed
  have "hd (dropWhile isspace t) = hd (strip t)"
    using strip_prefix[of t] assms by (metis hd_append2)
  with hd_dropWhile[OF ne] show ?thesis by simp
qed

lemma strip_last: assumes "strip t \<noteq> []" shows "\<not> isspace (last (strip t))"
proof -
  have ne: "dropWhile isspace (rev (dropWhile isspace t)) \<noteq> []"
    using assms by (simp add: strip_def)
  have "last (strip t) = hd (dropWhile isspace (rev (dropWhile isspace t)))"
    using ne by (simp add: strip_def last_rev)
  with hd_dropWhile[OF ne] show ?thesis by simp
qed

lemma remote_version_strip:
  "remote_version n a = Inr v \<Longrightarrow> \<exists>t. v = strip t"
  by (auto simp: remote_version_def split: sum.splits if_splits)

lemma isspace_newlines: "isspace (CHR 0x0A)" "isspace (CHR 0x0D)"
  by (simp_all add: isspace_def)

lemma universal_newlines_Nil: "universal_newlines xs = [] \<longleftrightarrow> xs = []"
  by (induction xs rule: universal_newlines.induct) auto

lemma universal_newlines_hd:
  "xs \<noteq> [] \<Longrightarrow> hd (universal_newlines xs) = (if hd xs = CHR 0x0D then CHR 0x0A else hd xs)"
  by (induction xs rule: universal_newlines.induct) auto

lemma universal_newlines_last:
  "xs \<noteq> [] \<Longrightarrow> last (universal_newlines xs) = (if last xs = CHR 0x0D then CHR 0x0A else last xs)"
  by (induction xs rule: universal_newlines.induct) (auto simp: universal_newlines_Nil)

lemma universal_newlines_id: "CHR 0x0D \<notin> set xs \<Longrightarrow> universal_newlines xs = xs"
  by (induction xs rule: universal_newlines.induct) auto

lemma padded_differs:
  assumes v: "v \<noteq> []" "\<not> isspace (hd v)" "\<not> isspace (last v)"
    and ws: "list_all isspace ws1" "list_all isspace ws2" "ws1 @ ws2 \<noteq> []"
  shows "universal_newlines (ws1 @ v @ ws2) \<noteq> v"
proof (cases "ws1 = []")
  case False
  then have "isspace (hd (ws1 @ v @ ws2))" using ws(1) by (cases ws1) simp_all
  then have "isspace (hd (universal_newlines (ws1 @ v @ ws2)))"
    using False by (simp add: universal_newlines_hd isspace_newlines)
  with v(2) show ?thesis by auto
next
  case True
  then have ne: "ws2 \<noteq> []" using ws(3) by simp
  then have "isspace (last ws2)" using ws(2) by (simp add: list_all_iff)
  then have "isspace (last (ws1 @ v @ ws2))" using ne by simp
  then have "isspace (last (universal_newlines (ws1 @ v @ ws2)))"
    using ne by (simp add: universal_newlines_last isspace_newlines)
  with v(3) show ?thesis by auto
qed

section \<open>A local record that differs from the remote token by white space\<close>

text \<open>
  The local record of area planet holds v1 followed by a newline, the remote token is
  v1 and the metadata file of v1 is not there. The run does not rewrite the record with
  the stripped token: it deletes the record.
\<close>

theorem padded_record_counterexample:
  "files (state_of [(local_version_file ''planet'', ''v1'' @ [CHR 0x0A])])
      (local_version_file ''planet'') = Some (''v1'' @ [CHR 0x0A])
   \<and> remote_version (net_of (Inr (Response 200 (''v1'' @ [CHR 0x0A]))) (Inr (Response 200 [])))
        ''planet'' = Inr ''v1''
   \<and> files (run_state (net_of (Inr (Response 200 (''v1'' @ [CHR 0x0A]))) (Inr (Response 200 [])))
        (state_of [(local_version_file ''planet'', ''v1'' @ [CHR 0x0A])]))
        (local_version_file ''planet'') = None
   \<and> Write (local_version_file ''planet'') ''v1''
        \<notin> set (run_events (net_of (Inr (Response 200 (''v1'' @ [CHR 0x0A]))) (Inr (Response 200 [])))
             (state_of [(local_version_file ''planet'', ''v1'' @ [CHR 0x0A])]))"
  by (simp add: run_defs world_defs)

text \<open>
  Claim C10, as amended. Take an area that the loop comes to (the iterations of the areas
  before it in the list have returned), whose lookup yields the non-empty token \<open>v\<close>
  (stripped of white space), whose existence check of the metadata file of \<open>v\<close> answers
  that the file is there, and whose local record, which the existence check of the record
  finds, holds \<open>v\<close> with white space before or after it. The record is read without
  stripping, so the value read differs from \<open>v\<close>; the run writes \<open>v\<close> to the record,
  which holds exactly \<open>v\<close> when the run ends; the iteration of the area returns the flag
  \<open>True\<close>, and the run does not return \<open>False\<close>.
\<close>

theorem padded_record_rewritten:
  assumes "areas = pre @ a # post" and "fst (deploy_loop n pre False s) = Inr b"
    and "remote_version n a = Inr v" and "v \<noteq> []"
    and "fst (path_exists n (mnt_file a v) s) = Inr True"
    and "fst (path_exists n (local_version_file a) s) = Inr True"
    and "files s (local_version_file a) = Some (ws1 @ v @ ws2)"
    and "list_all isspace ws1" and "list_all isspace ws2" and "ws1 @ ws2 \<noteq> []"
  shows "local_version_start a (files s) \<noteq> Some v
       \<and> files (run_state n s) (local_version_file a) = Some v
       \<and> Write (local_version_file a) v \<in> set (run_events n s)
       \<and> fst (deploy_area n a b (snd (deploy_loop n pre False s))) = Inr True
       \<and> fst (deploy_tileset n s) \<noteq> Inr False"
proof -
  obtain t where t: "v = strip t" using remote_version_strip[OF assms(3)] by blast
  have "\<not> isspace (hd v)" "\<not> isspace (last v)"
    using strip_hd[of t] strip_last[of t] assms(4) t by simp_all
  from padded_differs[OF assms(4) this assms(8-10)]
  have d: "local_version_start a (files s) \<noteq> Some v"
    using assms(7) by (simp add: local_version_start_def)
  have m: "\<not> stat_fails n (mnt_file a v)" "files s (mnt_file a v) \<noteq> None"
    using assms(5) by (simp_all add: path_exists_answer)
  have l: "\<not> stat_fails n (local_version_file a)"
    using assms(6) by (simp add: path_exists_answer)
  have k: "area_token n a = Inr v" using assms(3) l m(1) by (simp add: area_token_Inr)
  have r: "\<not> retires a v (files s)" using assms(4) m(2) by (simp add: retires_def)
  have q: "area_flag a v (files s)" using r d by (simp add: area_flag_def)
  note R = area_run[OF assms(1,2) k]
  have "files (run_state n s) (local_version_file a) = Some v"
    using R(1) r d by (simp add: area_files_def)
  moreover have "Write (local_version_file a) v \<in> set (run_events n s)"
    using R(4)[OF area_events_write[OF r d]] .
  ultimately show ?thesis using d q R(2) R(3)[OF q] by simp
qed

theorem padded_record_rewritten_witness:
  "areas = [] @ ''planet'' # [''monaco'']
   \<and> fst (deploy_loop (net_of (Inr (Response 200 (''v1'' @ [CHR 0x0A]))) (Inr (Response 200 []))) []
        False (state_of [(local_version_file ''planet'', ''v1'' @ [CHR 0x0A]),
                         (mnt_file ''planet'' ''v1'', ''{}'')])) = Inr False
   \<and> remote_version (net_of (Inr (Response 200 (''v1'' @ [CHR 0x0A]))) (Inr (Response 200 [])))
        ''planet'' = Inr ''v1''
   \<and> fst (path_exists (net_of (Inr (Response 200 (''v1'' @ [CHR 0x0A]))) (Inr (Response 200 [])))
        (mnt_file ''planet'' ''v1'')
        (state_of [(local_version_file ''planet'', ''v1'' @ [CHR 0x0A]),
                   (mnt_file ''planet'' ''v1'', ''{}'')])) = Inr True
   \<and> fst (path_exists (net_of (Inr (Response 200 (''v1'' @ [CHR 0x0A]))) (Inr (Response 200 [])))
        (local_version_file ''planet'')
        (state_of [(local_version_file ''planet'', ''v1'' @ [CHR 0x0A]),
                   (mnt_file ''planet'' ''v1'', ''{}'')])) = Inr True
   \<and> files (state_of [(local_version_file ''planet'', ''v1'' @ [CHR 0x0A]),
                       (mnt_file ''planet'' ''v1'', ''{}'')]) (local_version_file ''planet'')
        = Some ([] @ ''v1'' @ [CHR 0x0A])
   \<and> list_all isspace [CHR 0x0A]
   \<and> files (run_state (net_of (Inr (Response 200 (''v1'' @ [CHR 0x0A]))) (Inr (Response 200 [])))
        (state_of [(local_version_file ''planet'', ''v1'' @ [CHR 0x0A]),
                   (mnt_file ''planet'' ''v1'', ''{}'')])) (local_version_file ''planet'')
        = Some ''v1''
   \<and> Write (local_version_file ''planet'') ''v1''
        \<in> set (run_events (net_of (Inr (Response 200 (''v1'' @ [CHR 0x0A]))) (Inr (Response 200 [])))
             (state_of [(local_version_file ''planet'', ''v1'' @ [CHR 0x0A]),
                        (mnt_file ''planet'' ''v1'', ''{}'')]))
   \<and> fst (deploy_tileset (net_of (Inr (Response 200 (''v1'' @ [CHR 0x0A]))) (Inr (Response 200 [])))
        (state_of [(local_version_file ''planet'', ''v1'' @ [CHR 0x0A]),
                   (mnt_file ''planet'' ''v1'', ''{}'')])) \<noteq> Inr False"
proof -
  let ?n = "net_of (Inr (Response 200 (''v1'' @ [CHR 0x0A]))) (Inr (Response 200 []))"
  let ?s = "state_of [(local_version_file ''planet'', ''v1'' @ [CHR 0x0A]),
                      (mnt_file ''planet'' ''v1'', ''{}'')]"
  have h1: "areas = [] @ ''planet'' # [''monaco'']" by (simp add: areas_def)
  have h2: "fst (deploy_loop ?n [] False ?s) = Inr False" by (simp add: return_io_def)
  have h3: "remote_version ?n ''planet'' = Inr ''v1''" by (simp add: world_defs)
  have h4: "''v1'' \<noteq> []" by simp
  have h5: "fst (path_exists ?n (mnt_file ''planet'' ''v1'') ?s) = Inr True"
    by (simp add: path_exists_def world_defs)
  have h6: "fst (path_exists ?n (local_version_file ''planet'') ?s) = Inr True"
    by (simp add: path_exists_def world_defs)
  have h7: "files ?s (local_version_file ''planet'') = Some ([] @ ''v1'' @ [CHR 0x0A])"
    by (simp add: world_defs)
  have h8: "list_all isspace []" "list_all isspace [CHR 0x0A]" "[] @ [CHR 0x0A] \<noteq> []"
    by (simp_all add: isspace_def)
  from padded_record_rewritten[OF h1 h2 h3 h4 h5 h6 h7 h8]
  have "files (run_state ?n ?s) (local_version_file ''planet'') = Some ''v1''
      \<and> Write (local_version_file ''planet'') ''v1'' \<in> set (run_events ?n ?s)
      \<and> fst (deploy_tileset ?n ?s) \<noteq> Inr False" by blast
  with h1 h2 h3 h5 h6 h7 h8(2) show ?thesis by blast
qed

section \<open>A lookup that fails\<close>

lemma deploy_loop_abort:
  assumes "fst (deploy_loop n pre need s) = Inr b" and "remote_version n a = Inl e"
  shows "deploy_loop n (pre @ a # post) need s
           = (Inl e, emit (Get (version_url a)) (snd (deploy_loop n pre need s)))"
  using assms(1)
proof (induction pre arbitrary: need s)
  case Nil
  show ?case by (simp add: bind_io_def return_io_def deploy_area_fail[OF assms(2)])
next
  case (Cons x pre)
  obtain r s' where x: "deploy_area n x need s = (r, s')" by (cases "deploy_area n x need s")
  show ?case
  proof (cases r)
    case (Inl e')
    with x Cons.prems show ?thesis by (simp add: bind_io_def)
  next
    case (Inr b')
    with x Cons.prems have "fst (deploy_loop n pre b' s') = Inr b" by (simp add: bind_io_def)
    from Cons.IH[OF this] x Inr show ?thesis by (simp add: bind_io_def)
  qed
qed

text \<open>
  The lookup of planet answers with status 503, the lookup of monaco would yield v7, whose
  metadata file is there, and monaco has no record: an iteration for monaco alone would
  write the record v7. The run reconciles no area and reports no flag: it raises the HTTP
  error after the first request, and monaco is left without a record.
\<close>

theorem lookup_failure_counterexample:
  "remote_version (net_of (Inr (Response 503 [])) (Inr (Response 200 ''v7''))) ''planet''
     = Inl (HTTPError 503)
   \<and> remote_version (net_of (Inr (Response 503 [])) (Inr (Response 200 ''v7''))) ''monaco''
     = Inr ''v7''
   \<and> files (state_of [(mnt_file ''monaco'' ''v7'', ''{}'')]) (mnt_file ''monaco'' ''v7'')
     = Some ''{}''
   \<and> files (snd (deploy_area (net_of (Inr (Response 503 [])) (Inr (Response 200 ''v7'')))
        ''monaco'' False (state_of [(mnt_file ''monaco'' ''v7'', ''{}'')])))
        (local_version_file ''monaco'') = Some ''v7''
   \<and> fst (deploy_tileset (net_of (Inr (Response 503 [])) (Inr (Response 200 ''v7'')))
        (state_of [(mnt_file ''monaco'' ''v7'', ''{}'')])) = Inl (HTTPError 503)
   \<and> run_events (net_of (Inr (Response 503 [])) (Inr (Response 200 ''v7'')))
        (state_of [(mnt_file ''monaco'' ''v7'', ''{}'')]) = [Get (version_url ''planet'')]
   \<and> files (run_state (net_of (Inr (Response 503 [])) (Inr (Response 200 ''v7'')))
        (state_of [(mnt_file ''monaco'' ''v7'', ''{}'')])) (local_version_file ''monaco'') = None"
proof -
  let ?n = "net_of (Inr (Response 503 [])) (Inr (Response 200 ''v7''))"
  let ?s = "state_of [(mnt_file ''monaco'' ''v7'', ''{}'')]"
  have p: "remote_version ?n ''planet'' = Inl (HTTPError 503)" by (simp add: world_defs)
  have m: "remote_version ?n ''monaco'' = Inr ''v7''" by (simp add: world_defs)
  have mt: "area_token ?n ''monaco'' = Inr ''v7''" by (simp add: world_defs)
  have f: "files ?s (mnt_file ''monaco'' ''v7'') = Some ''{}''" by (simp add: world_defs)
  have a: "files (snd (deploy_area ?n ''monaco'' False ?s)) (local_version_file ''monaco'')
      = Some ''v7''"
    using f by (simp add: deploy_area_ok[OF mt] area_files_def retires_def local_version_start_def)
      (simp add: world_defs)
  have r: "fst (deploy_tileset ?n ?s) = Inl (HTTPError 503)"
    "run_events ?n ?s = [Get (version_url ''planet'')]"
    "files (run_state ?n ?s) (local_version_file ''monaco'') = None"
    using area_token_lookup[OF p] area_fail_events_lookup[OF p]
    by (simp_all add: run_flag_eq run_events_eq run_files_eq) (simp add: world_defs)
  from p m f a r show ?thesis by simp
qed

text \<open>
  Claim C1, as amended. When the lookup of an area fails (\<open>requests.get\<close> raises, or the
  status is a 4xx or 5xx one) after the iterations of the areas before it have ended,
  the run ends there: the error goes to the caller in place of the flag, the failed
  request is the last event, and the state is the one the earlier iterations left. No
  area later in the list is looked up, and none of their records is touched.
\<close>

theorem lookup_failure_aborts_run:
  assumes "areas = pre @ a # post"
    and "fst (deploy_loop n pre False s) = Inr b"
    and "remote_version n a = Inl e"
  shows "deploy_tileset n s = (Inl e, emit (Get (version_url a)) (snd (deploy_loop n pre False s)))
       \<and> (\<forall>c\<in>set post. \<forall>ev\<in>set (run_events n s).
            ev \<noteq> Get (version_url c) \<and> \<not> store_event (local_version_file c) ev)"
proof -
  have 1: "deploy_tileset n s
      = (Inl e, emit (Get (version_url a)) (snd (deploy_loop n pre False s)))"
    using deploy_loop_abort[OF assms(2,3), of post] assms(1) by (simp add: deploy_tileset_def)
  have 2: "\<forall>c\<in>set post. \<forall>ev\<in>set (run_events n s).
            ev \<noteq> Get (version_url c) \<and> \<not> store_event (local_version_file c) ev"
    using areas_split[OF assms(1)]
  proof (elim disjE conjE)
    assume "pre = []" "a = ''planet''" "post = [''monaco'']"
    with area_token_lookup[OF assms(3)] area_fail_events_lookup[OF assms(3)] show ?thesis
      by (simp add: run_events_eq Get_no_store version_url_inj)
  next
    assume "post = []"
    then show ?thesis by simp
  qed
  from 1 2 show ?thesis by blast
qed

theorem lookup_failure_aborts_run_witness:
  "areas = [] @ ''planet'' # [''monaco'']
   \<and> fst (deploy_loop (net_of (Inl ConnectionError) (Inr (Response 200 ''v7''))) [] False
        (state_of [(mnt_file ''monaco'' ''v7'', ''{}'')])) = Inr False
   \<and> remote_version (net_of (Inl ConnectionError) (Inr (Response 200 ''v7''))) ''planet''
       = Inl ConnectionError
   \<and> deploy_tileset (net_of (Inl ConnectionError) (Inr (Response 200 ''v7'')))
        (state_of [(mnt_file ''monaco'' ''v7'', ''{}'')])
       = (Inl ConnectionError,
          emit (Get (version_url ''planet'')) (state_of [(mnt_file ''monaco'' ''v7'', ''{}'')]))"
proof -
  let ?n = "net_of (Inl ConnectionError) (Inr (Response 200 ''v7''))"
  let ?s = "state_of [(mnt_file ''monaco'' ''v7'', ''{}'')]"
  have h1: "areas = [] @ ''planet'' # [''monaco'']" by (simp add: areas_def)
  have h2: "fst (deploy_loop ?n [] False ?s) = Inr False" by (simp add: return_io_def)
  have h3: "remote_version ?n ''planet'' = Inl ConnectionError" by (simp add: world_defs)
  from lookup_failure_aborts_run[OF h1 h2 h3] h1 h2 h3 show ?thesis
    by (simp add: return_io_def)
qed

text \<open>
  Claim C9. When the lookup of the i-th area of the list raises, after the iterations of
  the areas before it have ended, \<open>deploy_tileset\<close> raises the same error; the files it
  leaves are those that the earlier iterations left, so that every record they created,
  rewrote or deleted stays so; and for the i-th area and each later one the record is as
  it was at the start and no event of the run touches it.
\<close>

theorem lookup_failure_keeps_earlier_changes:
  assumes "areas = pre @ a # post"
    and "fst (deploy_loop n pre False s) = Inr b"
    and "remote_version n a = Inl e"
  shows "fst (deploy_tileset n s) = Inl e
       \<and> files (run_state n s) = files (snd (deploy_loop n pre False s))
       \<and> (\<forall>c\<in>set (a # post).
            files (run_state n s) (local_version_file c) = files s (local_version_file c)
          \<and> (\<forall>ev\<in>set (run_events n s). \<not> store_event (local_version_file c) ev))"
proof -
  have ne: "''planet'' \<noteq> ''monaco''" by simp
  have 1: "deploy_tileset n s
      = (Inl e, emit (Get (version_url a)) (snd (deploy_loop n pre False s)))"
    using deploy_loop_abort[OF assms(2,3), of post] assms(1) by (simp add: deploy_tileset_def)
  then have 2: "fst (deploy_tileset n s) = Inl e
       \<and> files (run_state n s) = files (snd (deploy_loop n pre False s))"
    by (simp add: run_state_def emit_def)
  have 3: "\<forall>c\<in>set (a # post).
            files (run_state n s) (local_version_file c) = files s (local_version_file c)
          \<and> (\<forall>ev\<in>set (run_events n s). \<not> store_event (local_version_file c) ev)"
    using areas_split[OF assms(1)]
  proof (elim disjE conjE)
    assume "pre = []" "a = ''planet''" "post = [''monaco'']"
    with area_token_lookup[OF assms(3)] area_fail_events_lookup[OF assms(3)] show ?thesis
      by (simp add: run_events_eq run_files_eq Get_no_store)
  next
    assume c: "pre = [''planet'']" "a = ''monaco''" "post = []"
    with assms(2) obtain w where w: "area_token n ''planet'' = Inr w"
      using deploy_loop_one_ok by blast
    have "\<forall>ev\<in>set (area_events ''planet'' w (files s)).
            \<not> store_event (local_version_file ''monaco'') ev"
      using area_events_no_store[of "''monaco''" "''planet''"] by auto
    with c w area_token_lookup[OF assms(3)] area_fail_events_lookup[OF assms(3)] show ?thesis
      by (simp add: run_events_eq run_files_eq Get_no_store area_files_self_other)
  qed
  from 2 3 show ?thesis by blast
qed

theorem lookup_failure_keeps_earlier_changes_witness:
  "areas = [''planet''] @ ''monaco'' # []
   \<and> fst (deploy_loop (net_of (Inr (Response 200 ''v4'')) (Inr (Response 404 ''gone'')))
        [''planet''] False (state_of [(mnt_file ''planet'' ''v4'', ''{}'')])) = Inr True
   \<and> remote_version (net_of (Inr (Response 200 ''v4'')) (Inr (Response 404 ''gone''))) ''monaco''
       = Inl (HTTPError 404)
   \<and> fst (deploy_tileset (net_of (Inr (Response 200 ''v4'')) (Inr (Response 404 ''gone'')))
        (state_of [(mnt_file ''planet'' ''v4'', ''{}'')])) = Inl (HTTPError 404)
   \<and> files (run_state (net_of (Inr (Response 200 ''v4'')) (Inr (Response 404 ''gone'')))
        (state_of [(mnt_file ''planet'' ''v4'', ''{}'')])) (local_version_file ''planet'')
       = Some ''v4''
   \<and> files (run_state (net_of (Inr (Response 200 ''v4'')) (Inr (Response 404 ''gone'')))
        (state_of [(mnt_file ''planet'' ''v4'', ''{}'')])) (local_version_file ''monaco'')
       = None"
proof -
  let ?n = "net_of (Inr (Response 200 ''v4'')) (Inr (Response 404 ''gone''))"
  let ?s = "state_of [(mnt_file ''planet'' ''v4'', ''{}'')]"
  have p: "area_token ?n ''planet'' = Inr ''v4''" by (simp add: world_defs)
  have f: "files ?s (mnt_file ''planet'' ''v4'') = Some ''{}''"
    "files ?s (local_version_file ''planet'') = None"
    "files ?s (local_version_file ''monaco'') = None"
    by (simp_all add: world_defs)
  have h1: "areas = [''planet''] @ ''monaco'' # []" by (simp add: areas_def)
  have h2: "fst (deploy_loop ?n [''planet''] False ?s) = Inr True"
    unfolding deploy_loop_single using f
    by (simp add: deploy_area_ok[OF p] area_flag_def retires_def local_version_start_def)
  have h3: "remote_version ?n ''monaco'' = Inl (HTTPError 404)" by (simp add: world_defs)
  have g: "files (snd (deploy_loop ?n [''planet''] False ?s)) (local_version_file ''planet'')
      = Some ''v4''"
    unfolding deploy_loop_single using f
    by (simp add: deploy_area_ok[OF p] area_files_def retires_def local_version_start_def)
  note T = lookup_failure_keeps_earlier_changes[OF h1 h2 h3]
  from T have a: "fst (deploy_tileset ?n ?s) = Inl (HTTPError 404)" by blast
  from T have b: "files (run_state ?n ?s) = files (snd (deploy_loop ?n [''planet''] False ?s))"
    by blast
  have c: "files (run_state ?n ?s) (local_version_file ''planet'') = Some ''v4''"
    by (simp only: b g)
  from T have "\<forall>c\<in>set [''monaco''].
      files (run_state ?n ?s) (local_version_file c) = files ?s (local_version_file c)
      \<and> (\<forall>ev\<in>set (run_events ?n ?s). \<not> store_event (local_version_file c) ev)" by blast
  then have "files (run_state ?n ?s) (local_version_file ''monaco'')
      = files ?s (local_version_file ''monaco'')" by simp
  then have d: "files (run_state ?n ?s) (local_version_file ''monaco'') = None"
    by (simp only: f(3))
  from h1 h2 h3 a c d show ?thesis by blast
qed

section \<open>The returned flag\<close>

lemma run_ok:
  assumes "fst (deploy_tileset n s) = Inr b"
  obtains v w where "area_token n ''planet'' = Inr v" "area_token n ''monaco'' = Inr w"
    "b = (area_flag ''planet'' v (files s) \<or> area_flag ''monaco'' w (files s))"
    "run_events n s = area_events ''planet'' v (files s) @ area_events ''monaco'' w (files s)"
    "files (run_state n s) = area_files ''monaco'' w (area_files ''planet'' v (files s))"
proof (cases "area_token n ''planet''")
  case (Inl e)
  with assms show thesis by (simp add: run_flag_eq)
next
  case p: (Inr v)
  show thesis
  proof (cases "area_token n ''monaco''")
    case (Inl e)
    with p assms show thesis by (simp add: run_flag_eq)
  next
    case (Inr w)
    with p assms that[of v w] show thesis
      by (simp add: run_flag_eq run_events_eq run_files_eq)
  qed
qed

lemma run_ok_turn:
  assumes "fst (deploy_tileset n s) = Inr b" "a \<in> set areas"
  shows "(a = ''planet'' \<or> (a = ''monaco'' \<and> (\<exists>w. area_token n ''planet'' = Inr w))) \<and> (\<exists>v. area_token n a = Inr v)"
proof -
  from assms(1) obtain v w where
    "area_token n ''planet'' = Inr v" "area_token n ''monaco'' = Inr w"
    by (rule run_ok)
  with assms(2) show ?thesis
    by (auto simp only: areas_set)
qed

lemma area_events_store_iff:
  "(\<exists>e\<in>set (area_events a v f). store_event (local_version_file a) e) \<longleftrightarrow> area_flag a v f"
proof
  assume "\<exists>e\<in>set (area_events a v f). store_event (local_version_file a) e"
  then show "area_flag a v f" using area_events_quiet[of a v f] by blast
next
  assume q: "area_flag a v f"
  show "\<exists>e\<in>set (area_events a v f). store_event (local_version_file a) e"
  proof (cases "retires a v f")
    case True
    with q have "Unlink (local_version_file a) \<in> set (area_events a v f)"
      by (simp add: area_events_unlink area_flag_def)
    then show ?thesis using store_event_simps(1) by blast
  next
    case False
    with q have "Write (local_version_file a) v \<in> set (area_events a v f)"
      by (simp add: area_events_write area_flag_def)
    then show ?thesis using store_event_simps(3) by blast
  qed
qed

lemma area_events_unlink_iff:
  "Unlink p \<in> set (area_events a v f)
     \<longleftrightarrow> p = local_version_file a \<and> retires a v f \<and> f (local_version_file a) \<noteq> None"
  by (auto simp: area_events_def split: if_splits)

lemma area_events_write_iff:
  "Write p t \<in> set (area_events a v f)
     \<longleftrightarrow> p = local_version_file a \<and> t = v \<and> \<not> retires a v f \<and> local_version_start a f \<noteq> Some v"
  by (auto simp: area_events_def split: if_splits)

lemma area_files_quiet: "\<not> area_flag a v f \<Longrightarrow> area_files a v f = f"
  by (auto simp: area_files_def area_flag_def)

lemma run_store_event:
  assumes "a = ''planet'' \<or> (a = ''monaco'' \<and> (\<exists>w. area_token n ''planet'' = Inr w))"
    and "area_token n a = Inr v"
    and "e \<in> set (run_events n s)" "store_event (local_version_file a) e"
  shows "e \<in> set (area_events a v (files s))"
proof -
  from run_area_events[OF assms(1,2)] obtain E1 E2 where
    "run_events n s = E1 @ area_events a v (files s) @ E2"
    "\<forall>e\<in>set E1. \<not> store_event (local_version_file a) e"
    "\<forall>e\<in>set E2. \<not> store_event (local_version_file a) e" by blast
  with assms(3,4) show ?thesis by auto
qed

text \<open>
  Claim C5. When \<open>deploy_tileset\<close> returns the flag \<open>b\<close>, then \<open>b\<close> is true if and only
  if an event of the run opens for writing, writes or unlinks the local record of one of
  the areas. These events are what they are meant to be: an unlink of a record happens
  only when the record was there at the start, and leaves none (a deletion); a write of
  \<open>v\<close> to a record happens only when the value read from the record at the start was not
  \<open>v\<close>, or there was no record, and leaves the record \<open>v\<close> (an update or a creation). A
  run that returns \<open>False\<close> leaves all files as they were.
\<close>

theorem flag_iff_record_changed:
  assumes "fst (deploy_tileset n s) = Inr b"
  shows "(b \<longleftrightarrow> (\<exists>a\<in>set areas. \<exists>e\<in>set (run_events n s). store_event (local_version_file a) e))
       \<and> (\<forall>a\<in>set areas. Unlink (local_version_file a) \<in> set (run_events n s) \<longrightarrow>
            files s (local_version_file a) \<noteq> None
          \<and> files (run_state n s) (local_version_file a) = None)
       \<and> (\<forall>a\<in>set areas. \<forall>v. Write (local_version_file a) v \<in> set (run_events n s) \<longrightarrow>
            local_version_start a (files s) \<noteq> Some v
          \<and> files (run_state n s) (local_version_file a) = Some v)
       \<and> (\<not> b \<longrightarrow> files (run_state n s) = files s)"
proof -
  from assms obtain v w where vw:
    "area_token n ''planet'' = Inr v" "area_token n ''monaco'' = Inr w"
    "b = (area_flag ''planet'' v (files s) \<or> area_flag ''monaco'' w (files s))"
    "run_events n s = area_events ''planet'' v (files s) @ area_events ''monaco'' w (files s)"
    "files (run_state n s) = area_files ''monaco'' w (area_files ''planet'' v (files s))"
    by (rule run_ok)
  have ne: "''planet'' \<noteq> ''monaco''" "''monaco'' \<noteq> ''planet''" by simp_all
  have pm: "\<forall>e\<in>set (area_events ''monaco'' w (files s)). \<not> store_event (local_version_file ''planet'') e"
    using area_events_no_store[OF ne(1)] by blast
  have mp: "\<forall>e\<in>set (area_events ''planet'' v (files s)). \<not> store_event (local_version_file ''monaco'') e"
    using area_events_no_store[OF ne(2)] by blast
  have "(\<exists>a\<in>set areas. \<exists>e\<in>set (run_events n s). store_event (local_version_file a) e)
      \<longleftrightarrow> (\<exists>e\<in>set (area_events ''planet'' v (files s)). store_event (local_version_file ''planet'') e)
        \<or> (\<exists>e\<in>set (area_events ''monaco'' w (files s)). store_event (local_version_file ''monaco'') e)"
    using pm mp by (auto simp: areas_def vw(4))
  then have 1: "b \<longleftrightarrow> (\<exists>a\<in>set areas. \<exists>e\<in>set (run_events n s). store_event (local_version_file a) e)"
    by (simp only: area_events_store_iff vw(3))
  have 2: "files s (local_version_file a) \<noteq> None \<and> files (run_state n s) (local_version_file a) = None"
    if a: "a \<in> set areas" and u: "Unlink (local_version_file a) \<in> set (run_events n s)" for a
  proof -
    from run_ok_turn[OF assms a] obtain x where x: "a = ''planet'' \<or> (a = ''monaco'' \<and> (\<exists>w. area_token n ''planet'' = Inr w))"
      "area_token n a = Inr x"
      by blast
    have "Unlink (local_version_file a) \<in> set (area_events a x (files s))"
      using run_store_event[OF x u] by (simp add: store_event_simps)
    then have "retires a x (files s)" "files s (local_version_file a) \<noteq> None"
      by (simp_all add: area_events_unlink_iff)
    with run_area_files[OF x, of s] show ?thesis by (simp add: area_files_def)
  qed
  have 3: "local_version_start a (files s) \<noteq> Some t \<and> files (run_state n s) (local_version_file a) = Some t"
    if a: "a \<in> set areas" and u: "Write (local_version_file a) t \<in> set (run_events n s)" for a t
  proof -
    from run_ok_turn[OF assms a] obtain x where x: "a = ''planet'' \<or> (a = ''monaco'' \<and> (\<exists>w. area_token n ''planet'' = Inr w))"
      "area_token n a = Inr x"
      by blast
    have "Write (local_version_file a) t \<in> set (area_events a x (files s))"
      using run_store_event[OF x u] by (simp add: store_event_simps)
    then have "t = x" "\<not> retires a x (files s)" "local_version_start a (files s) \<noteq> Some x"
      by (simp_all add: area_events_write_iff)
    with run_area_files[OF x, of s] show ?thesis by (simp add: area_files_def)
  qed
  have 4: "files (run_state n s) = files s" if "\<not> b"
    using that by (simp add: vw(3,5) area_files_quiet area_flag_frame[OF ne(1)])
  from 1 2 3 4 show ?thesis by blast
qed

theorem flag_iff_record_changed_witness:
  "fst (deploy_tileset (net_of (Inr (Response 200 ''v3'')) (Inr (Response 200 ''v7'')))
     (state_of [(local_version_file ''planet'', ''v3''), (mnt_file ''planet'' ''v3'', ''{}''),
                (mnt_file ''monaco'' ''v7'', ''{}'')])) = Inr True
   \<and> ''monaco'' \<in> set areas
   \<and> Write (local_version_file ''monaco'') ''v7''
       \<in> set (run_events (net_of (Inr (Response 200 ''v3'')) (Inr (Response 200 ''v7'')))
            (state_of [(local_version_file ''planet'', ''v3''), (mnt_file ''planet'' ''v3'', ''{}''),
                       (mnt_file ''monaco'' ''v7'', ''{}'')]))
   \<and> local_version_start ''monaco''
        (files (state_of [(local_version_file ''planet'', ''v3''),
                          (mnt_file ''planet'' ''v3'', ''{}''),
                          (mnt_file ''monaco'' ''v7'', ''{}'')])) \<noteq> Some ''v7''
   \<and> files (run_state (net_of (Inr (Response 200 ''v3'')) (Inr (Response 200 ''v7'')))
        (state_of [(local_version_file ''planet'', ''v3''), (mnt_file ''planet'' ''v3'', ''{}''),
                   (mnt_file ''monaco'' ''v7'', ''{}'')])) (local_version_file ''monaco'')
       = Some ''v7''"
proof -
  let ?n = "net_of (Inr (Response 200 ''v3'')) (Inr (Response 200 ''v7''))"
  let ?s = "state_of [(local_version_file ''planet'', ''v3''), (mnt_file ''planet'' ''v3'', ''{}''),
                      (mnt_file ''monaco'' ''v7'', ''{}'')]"
  have h: "fst (deploy_tileset ?n ?s) = Inr True" by (simp add: run_defs world_defs)
  have a: "''monaco'' \<in> set areas" by (simp add: areas_def)
  have w: "Write (local_version_file ''monaco'') ''v7'' \<in> set (run_events ?n ?s)"
    by (simp add: run_defs world_defs)
  from flag_iff_record_changed[OF h] a w
  have "local_version_start ''monaco'' (files ?s) \<noteq> Some ''v7''
      \<and> files (run_state ?n ?s) (local_version_file ''monaco'') = Some ''v7''" by blast
  with h a w show ?thesis by blast
qed

section \<open>Writing a record only after the availability check\<close>

lemma snoc_split_last:
  assumes "xs @ [x] = pre @ x # post" "x \<notin> set xs"
  shows "pre = xs \<and> post = []"
proof (cases post rule: rev_cases)
  case Nil
  with assms(1) show ?thesis by simp
next
  case (snoc ys y)
  with assms(1) have "xs @ [x] = (pre @ x # ys) @ [y]" by simp
  then have "xs = pre @ x # ys" by (simp only: append1_eq_conv)
  with assms(2) show ?thesis by simp
qed

lemma area_events_adopt:
  assumes "\<not> retires a v f" "local_version_start a f \<noteq> Some v"
  shows "\<exists>hs. area_events a v f
           = (hs @ [Exists (mnt_file a v) True, Open_w (local_version_file a)])
             @ [Write (local_version_file a) v]
         \<and> Write (local_version_file a) v
             \<notin> set (hs @ [Exists (mnt_file a v) True, Open_w (local_version_file a)])"
proof -
  let ?hs = "[Get (version_url a), Print (''  remote version for '' @ a @ '': '' @ v),
      Exists (local_version_file a) (f (local_version_file a) \<noteq> None)]
     @ (if f (local_version_file a) \<noteq> None then [Read (local_version_file a)] else [])"
  have "area_events a v f
           = (?hs @ [Exists (mnt_file a v) True, Open_w (local_version_file a)])
             @ [Write (local_version_file a) v]"
    using assms by (simp add: area_events_def retires_def)
  moreover have "Write (local_version_file a) v
             \<notin> set (?hs @ [Exists (mnt_file a v) True, Open_w (local_version_file a)])"
    by simp
  ultimately show ?thesis by blast
qed

lemma area_events_split_write:
  assumes "area_events a v f = pre @ Write p t # post"
  shows "p = local_version_file a \<and> t = v \<and> f (mnt_file a v) \<noteq> None
       \<and> (\<exists>hs. pre = hs @ [Exists (mnt_file a v) True, Open_w (local_version_file a)])"
proof -
  have "Write p t \<in> set (area_events a v f)" using assms by simp
  then have w: "p = local_version_file a" "t = v" "\<not> retires a v f"
    "local_version_start a f \<noteq> Some v"
    by (simp_all add: area_events_write_iff)
  from area_events_adopt[OF w(3,4)] obtain hs where hs:
    "area_events a v f = (hs @ [Exists (mnt_file a v) True, Open_w (local_version_file a)])
       @ [Write (local_version_file a) v]"
    "Write (local_version_file a) v
       \<notin> set (hs @ [Exists (mnt_file a v) True, Open_w (local_version_file a)])"
    by blast
  from hs(1) assms w(1,2)
  have "(hs @ [Exists (mnt_file a v) True, Open_w (local_version_file a)])
       @ [Write (local_version_file a) v] = pre @ Write (local_version_file a) v # post"
    by simp
  from snoc_split_last[OF this hs(2)]
  have "pre = hs @ [Exists (mnt_file a v) True, Open_w (local_version_file a)]" by simp
  with w show ?thesis by (simp add: retires_def)
qed

lemma append_split_at:
  assumes "xs @ ys = pre @ x # post"
  shows "(\<exists>us. xs = pre @ x # us) \<or> (\<exists>us. pre = xs @ us \<and> ys = us @ x # post)"
proof -
  from assms obtain us where
    "(xs = pre @ us \<and> us @ ys = x # post) \<or> (xs @ us = pre \<and> ys = us @ x # post)"
    by (auto simp: append_eq_append_conv2)
  then show ?thesis
  proof
    assume a: "xs = pre @ us \<and> us @ ys = x # post"
    show ?thesis
    proof (cases us)
      case Nil
      with a have "pre = xs @ [] \<and> ys = [] @ x # post" by simp
      then show ?thesis by blast
    next
      case (Cons u us')
      with a show ?thesis by simp
    qed
  next
    assume "xs @ us = pre \<and> ys = us @ x # post"
    then show ?thesis by blast
  qed
qed

lemma area_events_checked:
  assumes "a \<in> set areas" "area_token n a = Inr v"
    and "xs @ area_events a v (files s) @ ys = pre @ Write p t # post"
    and "\<forall>e\<in>set xs. \<not> store_event (local_version_file a) e"
    and "\<forall>e\<in>set ys. \<not> store_event (local_version_file a) e"
    and "p = local_version_file a"
  shows "remote_version n a = Inr t \<and> files s (mnt_file a t) \<noteq> None
       \<and> (\<exists>hs. pre = hs @ [Exists (mnt_file a t) True, Open_w (local_version_file a)])"
proof -
  have w: "store_event (local_version_file a) (Write p t)"
    using assms(6) by (simp add: store_event_simps)
  from append_split_at[OF assms(3)] show ?thesis
  proof (elim disjE exE conjE)
    fix us assume "xs = pre @ Write p t # us"
    then have "Write p t \<in> set xs" by simp
    with assms(4) w show ?thesis by blast
  next
    fix us assume us: "pre = xs @ us" "area_events a v (files s) @ ys = us @ Write p t # post"
    from append_split_at[OF us(2)] show ?thesis
    proof (elim disjE exE conjE)
      fix vs assume vs: "area_events a v (files s) = us @ Write p t # vs"
      from area_events_split_write[OF this] obtain hs where
        "t = v" "files s (mnt_file a v) \<noteq> None"
        "us = hs @ [Exists (mnt_file a v) True, Open_w (local_version_file a)]" by blast
      with us(1) assms(2) show ?thesis by (simp add: area_token_Inr)
    next
      fix vs assume "ys = vs @ Write p t # post"
      then have "Write p t \<in> set ys" by simp
      with assms(5) w show ?thesis by blast
    qed
  qed
qed

lemma area_fail_events_no_write: "Write p t \<notin> set (area_fail_events n a f)"
  using area_fail_events_no_store[of "Write p t" n a f p] by (auto simp: store_event_simps)

lemma run_writes_are_records:
  assumes "Write p t \<in> set (run_events n s)"
  shows "\<exists>a\<in>set areas. p = local_version_file a
           \<and> (a = ''planet'' \<or> (a = ''monaco'' \<and> (\<exists>w. area_token n ''planet'' = Inr w))) \<and> (\<exists>v. area_token n a = Inr v)"
proof (cases "area_token n ''planet''")
  case (Inl e)
  with assms show ?thesis by (simp add: run_events_eq area_fail_events_no_write)
next
  case p: (Inr v)
  show ?thesis
  proof (cases "area_token n ''monaco''")
    case (Inl e)
    with p assms have "Write p t \<in> set (area_events ''planet'' v (files s))"
      by (simp add: run_events_eq area_fail_events_no_write)
    then have "p = local_version_file ''planet''" by (simp add: area_events_write_iff)
    with p show ?thesis by (auto simp: areas_set)
  next
    case (Inr w)
    with p assms have "Write p t \<in> set (area_events ''planet'' v (files s))
        \<or> Write p t \<in> set (area_events ''monaco'' w (files s))"
      by (simp add: run_events_eq)
    then have "p = local_version_file ''planet'' \<or> p = local_version_file ''monaco''"
      by (auto simp: area_events_write_iff)
    with p Inr show ?thesis by (auto simp: areas_set)
  qed
qed

lemma run_area_skipped:
  assumes "a \<in> set areas"
    and "\<not> ((a = ''planet'' \<or> (a = ''monaco'' \<and> (\<exists>w. area_token n ''planet'' = Inr w))) \<and> (\<exists>v. area_token n a = Inr v))"
  shows "files (run_state n s) (local_version_file a) = files s (local_version_file a)"
proof (cases "area_token n ''planet''")
  case (Inl e)
  then show ?thesis by (simp add: run_files_eq)
next
  case p: (Inr v)
  have ne: "''monaco'' \<noteq> ''planet''" by simp
  from assms(1) have "a = ''planet'' \<or> a = ''monaco''" by (simp only: areas_set)
  then have a: "a = ''monaco''" using assms(2) p by blast
  show ?thesis
  proof (cases "area_token n ''monaco''")
    case (Inl e)
    with p a show ?thesis by (simp add: run_files_eq area_files_self_other[OF ne])
  next
    case (Inr w)
    with a p assms(2) show ?thesis by blast
  qed
qed

lemma area_events_check:
  "\<not> retires a v f \<Longrightarrow> Exists (mnt_file a v) True \<in> set (area_events a v f)"
  by (simp add: area_events_def retires_def)

lemma area_files_new:
  assumes "area_files a v f (local_version_file a) = Some t" "f (local_version_file a) \<noteq> Some t"
  shows "t = v \<and> \<not> retires a v f"
proof (cases "retires a v f")
  case True
  with assms(1) show ?thesis by (simp add: area_files_def)
next
  case r: False
  show ?thesis
  proof (cases "local_version_start a f = Some v")
    case True
    with r assms show ?thesis by (simp add: area_files_def)
  next
    case False
    with r assms(1) show ?thesis by (simp add: area_files_def)
  qed
qed

text \<open>
  Claim C4. Whenever a run writes a version \<open>v\<close> to a file, the file is the local record
  of one of the areas, \<open>v\<close> is the token that the lookup of this area yielded, the
  metadata file of \<open>v\<close> for this area is there, and the two events just before the write
  are the check of that metadata file, with the answer that it exists, and the opening of
  the record for writing: the check comes first, in the same iteration. Moreover, an area
  whose record holds \<open>v\<close> when the run ends, and did not at the start, has the metadata
  file of \<open>v\<close>, and the run has checked it with a positive answer.
\<close>

theorem record_written_after_check:
  "(\<forall>pre p v post. run_events n s = pre @ Write p v # post \<longrightarrow>
      (\<exists>a\<in>set areas. p = local_version_file a \<and> remote_version n a = Inr v
         \<and> files s (mnt_file a v) \<noteq> None
         \<and> (\<exists>hs. pre = hs @ [Exists (mnt_file a v) True, Open_w (local_version_file a)])))
   \<and> (\<forall>a\<in>set areas. \<forall>v.
        files (run_state n s) (local_version_file a) = Some v
        \<and> files s (local_version_file a) \<noteq> Some v \<longrightarrow>
          files s (mnt_file a v) \<noteq> None
        \<and> Exists (mnt_file a v) True \<in> set (run_events n s))"
proof -
  have 1: "\<exists>a\<in>set areas. p = local_version_file a \<and> remote_version n a = Inr t
         \<and> files s (mnt_file a t) \<noteq> None
         \<and> (\<exists>hs. pre = hs @ [Exists (mnt_file a t) True, Open_w (local_version_file a)])"
    if r: "run_events n s = pre @ Write p t # post" for pre p t post
  proof -
    have "Write p t \<in> set (run_events n s)" using r by simp
    from run_writes_are_records[OF this] obtain a v where
      a: "a \<in> set areas" "p = local_version_file a"
        "a = ''planet'' \<or> (a = ''monaco'' \<and> (\<exists>w. area_token n ''planet'' = Inr w))"
        "area_token n a = Inr v"
      by blast
    from run_area_events[OF a(3,4), of s] obtain E1 E2 where E:
      "run_events n s = E1 @ area_events a v (files s) @ E2"
      "\<forall>e\<in>set E1. \<not> store_event (local_version_file a) e"
      "\<forall>e\<in>set E2. \<not> store_event (local_version_file a) e" by blast
    from E(1) r have "E1 @ area_events a v (files s) @ E2 = pre @ Write p t # post" by simp
    from area_events_checked[OF a(1,4) this E(2,3) a(2)] a(1,2) show ?thesis by blast
  qed
  have 2: "files s (mnt_file a v) \<noteq> None \<and> Exists (mnt_file a v) True \<in> set (run_events n s)"
    if a: "a \<in> set areas" and f: "files (run_state n s) (local_version_file a) = Some v"
      "files s (local_version_file a) \<noteq> Some v" for a v
  proof -
    have "(a = ''planet'' \<or> (a = ''monaco'' \<and> (\<exists>w. area_token n ''planet'' = Inr w))) \<and> (\<exists>w. area_token n a = Inr w)"
      using run_area_skipped[OF a, of n s] f by auto
    then obtain w where w: "a = ''planet'' \<or> (a = ''monaco'' \<and> (\<exists>w. area_token n ''planet'' = Inr w))"
      "area_token n a = Inr w" by blast
    from run_area_files[OF w, of s] f(1)
    have af: "area_files a w (files s) (local_version_file a) = Some v" by simp
    from area_files_new[OF af f(2)] have "v = w" "\<not> retires a v (files s)" by simp_all
    with run_area_has[OF w area_events_check, of s] show ?thesis by (simp add: retires_def)
  qed
  from 1 2 show ?thesis by blast
qed

theorem record_written_after_check_witness:
  "run_events (net_of (Inr (Response 200 [])) (Inr (Response 200 ''v7'')))
     (state_of [(mnt_file ''monaco'' ''v7'', ''{}'')])
   = butlast (run_events (net_of (Inr (Response 200 [])) (Inr (Response 200 ''v7'')))
       (state_of [(mnt_file ''monaco'' ''v7'', ''{}'')]))
     @ Write (local_version_file ''monaco'') ''v7'' # []
   \<and> Exists (mnt_file ''monaco'' ''v7'') True
       \<in> set (butlast (run_events (net_of (Inr (Response 200 [])) (Inr (Response 200 ''v7'')))
            (state_of [(mnt_file ''monaco'' ''v7'', ''{}'')])))
   \<and> files (state_of [(mnt_file ''monaco'' ''v7'', ''{}'')]) (mnt_file ''monaco'' ''v7'') \<noteq> None"
proof -
  let ?n = "net_of (Inr (Response 200 [])) (Inr (Response 200 ''v7''))"
  let ?s = "state_of [(mnt_file ''monaco'' ''v7'', ''{}'')]"
  have h: "run_events ?n ?s
      = butlast (run_events ?n ?s) @ Write (local_version_file ''monaco'') ''v7'' # []"
    by (simp add: run_defs world_defs)
  from record_written_after_check[of ?n ?s] h
  obtain a hs where a: "a \<in> set areas" "local_version_file ''monaco'' = local_version_file a"
    "files ?s (mnt_file a ''v7'') \<noteq> None"
    "butlast (run_events ?n ?s) = hs @ [Exists (mnt_file a ''v7'') True, Open_w (local_version_file a)]"
    by blast
  from a(2) have "a = ''monaco''" by (simp add: local_inj)
  with a(3,4) have "Exists (mnt_file ''monaco'' ''v7'') True \<in> set (butlast (run_events ?n ?s))"
    "files ?s (mnt_file ''monaco'' ''v7'') \<noteq> None" by simp_all
  with h show ?thesis by blast
qed

section \<open>Running twice\<close>

lemma retires_after: "retires a v (area_files a v f) = retires a v f"
  using local_ne_mnt[of a a v] by (simp add: retires_def area_files_other)

lemma area_idem:
  assumes "CHR 0x0D \<notin> set v"
  shows "\<not> area_flag a v (area_files a v f)"
proof (cases "retires a v f")
  case True
  then have "area_files a v f (local_version_file a) = None" by (simp add: area_files_def)
  with True show ?thesis by (simp add: area_flag_def retires_after)
next
  case r: False
  show ?thesis
  proof (cases "local_version_start a f = Some v")
    case True
    with r have "area_files a v f = f" by (simp add: area_files_def)
    with r True show ?thesis by (simp add: area_flag_def)
  next
    case False
    with r have "area_files a v f (local_version_file a) = Some v" by (simp add: area_files_def)
    then have "local_version_start a (area_files a v f) = Some v"
      using assms by (simp add: local_version_start_def universal_newlines_id)
    with r show ?thesis by (simp add: area_flag_def retires_after)
  qed
qed

lemma area_events_quiet_all:
  "\<not> area_flag a v f \<Longrightarrow> \<forall>e\<in>set (area_events a v f). \<forall>p. \<not> store_event p e"
  using area_events_quiet by blast

lemma second_run:
  assumes p: "area_token n ''planet'' = Inr v" "CHR 0x0D \<notin> set v"
    and m: "area_token n ''monaco'' = Inr w" "CHR 0x0D \<notin> set w"
  shows "\<not> area_flag ''planet'' v (files (run_state n s))"
    and "\<not> area_flag ''monaco'' w (files (run_state n s))"
proof -
  have ne: "''planet'' \<noteq> ''monaco''" "''monaco'' \<noteq> ''planet''" by simp_all
  have f: "files (run_state n s) = area_files ''monaco'' w (area_files ''planet'' v (files s))"
    using p(1) m(1) by (simp add: run_files_eq)
  show "\<not> area_flag ''planet'' v (files (run_state n s))"
    using area_idem[OF p(2)] by (simp add: f area_flag_frame[OF ne(2)])
  show "\<not> area_flag ''monaco'' w (files (run_state n s))"
    using area_idem[OF m(2)] by (simp add: f)
qed

text \<open>
  The remote token of planet is the three characters a, carriage return, b, its metadata
  file is there, and the lookup of monaco answers with status 404. The first run writes
  the token to the record of planet and raises at monaco. The second run, started in the
  state the first one left, reads the record back with the carriage return translated
  into a newline, finds it different from the token, and writes the record again; then
  it raises at monaco as the first run did, so it does not return \<open>False\<close>.
\<close>

theorem second_run_counterexample:
  "Write (local_version_file ''planet'') [CHR ''a'', CHR 0x0D, CHR ''b'']
     \<in> set (run_events (net_of (Inr (Response 200 [CHR ''a'', CHR 0x0D, CHR ''b''])) (Inr (Response 404 [])))
          (run_state (net_of (Inr (Response 200 [CHR ''a'', CHR 0x0D, CHR ''b''])) (Inr (Response 404 [])))
             (state_of [(mnt_file ''planet'' [CHR ''a'', CHR 0x0D, CHR ''b''], ''{}'')])))
   \<and> fst (deploy_tileset (net_of (Inr (Response 200 [CHR ''a'', CHR 0x0D, CHR ''b''])) (Inr (Response 404 [])))
          (run_state (net_of (Inr (Response 200 [CHR ''a'', CHR 0x0D, CHR ''b''])) (Inr (Response 404 [])))
             (state_of [(mnt_file ''planet'' [CHR ''a'', CHR 0x0D, CHR ''b''], ''{}'')])))
       = Inl (HTTPError 404)"
proof -
  let ?v = "[CHR ''a'', CHR 0x0D, CHR ''b'']"
  let ?n = "net_of (Inr (Response 200 ?v)) (Inr (Response 404 []))"
  let ?s = "state_of [(mnt_file ''planet'' ?v, ''{}'')]"
  have p: "area_token ?n ''planet'' = Inr ?v" by (simp add: world_defs)
  have m: "area_token ?n ''monaco'' = Inl (HTTPError 404)" by (simp add: world_defs)
  have f: "files ?s (mnt_file ''planet'' ?v) = Some ''{}''"
    "files ?s (local_version_file ''planet'') = None" by (simp_all add: world_defs)
  have f1: "files (run_state ?n ?s) = (files ?s)(local_version_file ''planet'' \<mapsto> ?v)"
    using f by (simp add: run_files_eq p m area_files_def retires_def local_version_start_def)
  have g: "files (run_state ?n ?s) (mnt_file ''planet'' ?v) = Some ''{}''"
    "files (run_state ?n ?s) (local_version_file ''planet'') = Some ?v"
    using f local_ne_mnt[of "''planet''" "''planet''" ?v] by (simp_all add: f1)
  have r: "\<not> retires ''planet'' ?v (files (run_state ?n ?s))"
    using g by (simp add: retires_def)
  have d: "local_version_start ''planet'' (files (run_state ?n ?s)) \<noteq> Some ?v"
    using g by (simp add: local_version_start_def)
  have w: "Write (local_version_file ''planet'') ?v \<in> set (run_events ?n (run_state ?n ?s))"
    using area_events_write[OF r d] by (simp add: run_events_eq p m)
  have e: "fst (deploy_tileset ?n (run_state ?n ?s)) = Inl (HTTPError 404)"
    by (simp add: run_flag_eq p m)
  from w e show ?thesis by blast
qed

text \<open>
  Claim C6, as amended. Let no remote token contain a carriage return, and run
  \<open>deploy_tileset\<close> a second time in the state the first run left, against the same
  remote side. The second run leaves all files as they are, and none of its events opens
  for writing, writes or unlinks a file. If the first run returned a flag, the second
  returns \<open>False\<close>; if the first run raised, the second raises the same error.
\<close>

theorem second_run_changes_nothing:
  assumes "\<forall>a\<in>set areas. \<forall>v. remote_version n a = Inr v \<longrightarrow> CHR 0x0D \<notin> set v"
  shows "files (run_state n (run_state n s)) = files (run_state n s)
       \<and> (\<forall>e\<in>set (run_events n (run_state n s)). \<forall>p. \<not> store_event p e)
       \<and> (\<forall>b. fst (deploy_tileset n s) = Inr b \<longrightarrow>
            fst (deploy_tileset n (run_state n s)) = Inr False)
       \<and> (\<forall>e. fst (deploy_tileset n s) = Inl e \<longrightarrow>
            fst (deploy_tileset n (run_state n s)) = Inl e)"
proof (cases "area_token n ''planet''")
  case (Inl e)
  have "\<forall>e\<in>set (area_fail_events n ''planet'' (files s)). \<forall>p. \<not> store_event p e"
    using area_fail_events_no_store by blast
  with Inl show ?thesis by (simp add: run_files_eq run_events_eq run_flag_eq)
next
  case p: (Inr v)
  have ne: "''planet'' \<noteq> ''monaco''" "''monaco'' \<noteq> ''planet''" by simp_all
  have "remote_version n ''planet'' = Inr v" using p by (simp add: area_token_Inr)
  then have cv: "CHR 0x0D \<notin> set v" using assms by (simp add: areas_def)
  show ?thesis
  proof (cases "area_token n ''monaco''")
    case (Inl e)
    have f: "files (run_state n s) = area_files ''planet'' v (files s)"
      using p Inl by (simp add: run_files_eq)
    have q: "\<not> area_flag ''planet'' v (files (run_state n s))"
      using area_idem[OF cv] by (simp add: f)
    have 1: "files (run_state n (run_state n s)) = files (run_state n s)"
      using p Inl by (simp add: run_files_eq[of n "run_state n s"] area_files_quiet[OF q])
    have "\<forall>e\<in>set (area_fail_events n ''monaco'' (files (run_state n s))). \<forall>p. \<not> store_event p e"
      using area_fail_events_no_store by blast
    then have 2: "\<forall>e\<in>set (run_events n (run_state n s)). \<forall>p. \<not> store_event p e"
      using p Inl area_events_quiet_all[OF q]
      by (auto simp: run_events_eq[of n "run_state n s"])
    have 3: "fst (deploy_tileset n s) = Inl e" "fst (deploy_tileset n (run_state n s)) = Inl e"
      using p Inl by (simp_all add: run_flag_eq)
    from 1 2 3 show ?thesis by simp
  next
    case m: (Inr w)
    have "remote_version n ''monaco'' = Inr w" using m by (simp add: area_token_Inr)
    then have cw: "CHR 0x0D \<notin> set w" using assms by (simp add: areas_def)
    note q = second_run[OF p cv m cw, of s]
    have 1: "files (run_state n (run_state n s)) = files (run_state n s)"
      using p m by (simp add: run_files_eq[of n "run_state n s"] area_files_quiet q)
    have 2: "\<forall>e\<in>set (run_events n (run_state n s)). \<forall>p. \<not> store_event p e"
      using p m area_events_quiet_all[OF q(1)] area_events_quiet_all[OF q(2)]
      by (auto simp: run_events_eq[of n "run_state n s"])
    have 3: "fst (deploy_tileset n (run_state n s)) = Inr False"
      using p m q by (simp add: run_flag_eq)
    have 4: "\<exists>b. fst (deploy_tileset n s) = Inr b" using p m by (simp add: run_flag_eq)
    from 1 2 3 4 show ?thesis by auto
  qed
qed

theorem second_run_changes_nothing_witness:
  "remote_version (net_of (Inr (Response 200 ''v3'')) (Inr (Response 200 []))) ''planet'' = Inr ''v3''
   \<and> CHR 0x0D \<notin> set ''v3''
   \<and> remote_version (net_of (Inr (Response 200 ''v3'')) (Inr (Response 200 []))) ''monaco'' = Inr []
   \<and> fst (deploy_tileset (net_of (Inr (Response 200 ''v3'')) (Inr (Response 200 [])))
        (state_of [(mnt_file ''planet'' ''v3'', ''{}''), (local_version_file ''monaco'', ''v5'')]))
       = Inr True
   \<and> fst (deploy_tileset (net_of (Inr (Response 200 ''v3'')) (Inr (Response 200 [])))
        (run_state (net_of (Inr (Response 200 ''v3'')) (Inr (Response 200 [])))
           (state_of [(mnt_file ''planet'' ''v3'', ''{}''), (local_version_file ''monaco'', ''v5'')])))
       = Inr False
   \<and> files (run_state (net_of (Inr (Response 200 ''v3'')) (Inr (Response 200 [])))
        (run_state (net_of (Inr (Response 200 ''v3'')) (Inr (Response 200 [])))
           (state_of [(mnt_file ''planet'' ''v3'', ''{}''), (local_version_file ''monaco'', ''v5'')])))
       = files (run_state (net_of (Inr (Response 200 ''v3'')) (Inr (Response 200 [])))
           (state_of [(mnt_file ''planet'' ''v3'', ''{}''), (local_version_file ''monaco'', ''v5'')]))"
proof -
  let ?n = "net_of (Inr (Response 200 ''v3'')) (Inr (Response 200 []))"
  let ?s = "state_of [(mnt_file ''planet'' ''v3'', ''{}''), (local_version_file ''monaco'', ''v5'')]"
  have p: "remote_version ?n ''planet'' = Inr ''v3''" by (simp add: world_defs)
  have m: "remote_version ?n ''monaco'' = Inr []" by (simp add: world_defs)
  have c: "CHR 0x0D \<notin> set ''v3''" by simp
  have h: "\<forall>a\<in>set areas. \<forall>v. remote_version ?n a = Inr v \<longrightarrow> CHR 0x0D \<notin> set v"
    using p m by (auto simp: areas_def)
  have pt: "area_token ?n ''planet'' = Inr ''v3''" by (simp add: world_defs)
  have mt: "area_token ?n ''monaco'' = Inr []" by (simp add: world_defs)
  have r: "fst (deploy_tileset ?n ?s) = Inr True"
    by (simp add: run_flag_eq pt mt area_flag_def retires_def) (simp add: world_defs)
  note T = second_run_changes_nothing[OF h, of ?s]
  from T r have r2: "fst (deploy_tileset ?n (run_state ?n ?s)) = Inr False" by blast
  from T have f: "files (run_state ?n (run_state ?n ?s)) = files (run_state ?n ?s)" by blast
  from p c m r r2 f show ?thesis by blast
qed

section \<open>Interrupting a run\<close>

lemma apply_event_no_store: "(\<forall>p. \<not> store_event p e) \<Longrightarrow> apply_event f e = f"
  by (cases e) (simp_all add: apply_event_def store_event_def)

lemma replay_no_store: "(\<forall>e\<in>set xs. \<forall>p. \<not> store_event p e) \<Longrightarrow> replay xs f = f"
  by (induction xs arbitrary: f) (simp_all add: replay_def apply_event_no_store)

lemma replay_take_no_store:
  assumes "\<forall>e\<in>set xs. \<forall>p. \<not> store_event p e"
  shows "replay (take k xs) f = f"
proof -
  have "\<forall>e\<in>set (take k xs). \<forall>p. \<not> store_event p e"
    using assms set_take_subset[of k xs] by blast
  then show ?thesis by (rule replay_no_store)
qed

lemma replay_append: "replay (xs @ ys) f = replay ys (replay xs f)"
  by (simp add: replay_def)

lemma replay_take_append:
  "replay (take k (xs @ ys)) f = replay (take (k - length xs) ys) (replay (take k xs) f)"
  by (simp add: replay_def)

lemma replay_simps:
  "replay [] f = f"
  "replay [Unlink p] f = f(p := None)"
  "replay [Open_w p] f = f(p \<mapsto> [])"
  "replay [Open_w p, Write p t] f = f(p \<mapsto> t)"
  by (simp_all add: replay_def apply_event_def)

lemma take_one: "take j [x] = [] \<or> take j [x] = [x]"
  by (cases j) simp_all

lemma take_two: "take j [x, y] = [] \<or> take j [x, y] = [x] \<or> take j [x, y] = [x, y]"
proof (cases j)
  case 0
  then show ?thesis by simp
next
  case (Suc i)
  then show ?thesis by (cases i) simp_all
qed

lemma area_events_shape:
  "\<exists>H S. area_events a v f = H @ S \<and> (\<forall>e\<in>set H. \<forall>p. \<not> store_event p e)
     \<and> (S = [] \<and> area_files a v f = f
        \<or> S = [Unlink (local_version_file a)]
          \<and> area_files a v f = f(local_version_file a := None)
        \<or> S = [Open_w (local_version_file a), Write (local_version_file a) v]
          \<and> area_files a v f = f(local_version_file a \<mapsto> v))"
proof -
  let ?l = "local_version_file a"
  let ?H = "[Get (version_url a), Print (''  remote version for '' @ a @ '': '' @ v),
      Exists ?l (f ?l \<noteq> None)]
     @ (if f ?l \<noteq> None then [Read ?l] else [])
     @ (if v = [] then [Print ''  remote version not specified'']
        else Exists (mnt_file a v) (f (mnt_file a v) \<noteq> None)
             # (if f (mnt_file a v) = None then [Print ''  local version does not exist'']
                else []))"
  let ?S = "if retires a v f then (if f ?l \<noteq> None then [Unlink ?l] else [])
        else if local_version_start a f \<noteq> Some v then [Open_w ?l, Write ?l v] else []"
  have e: "area_events a v f = ?H @ ?S" by (simp add: area_events_def)
  have h: "\<forall>e\<in>set ?H. \<forall>p. \<not> store_event p e" by (auto simp: store_event_def)
  have "f ?l = None \<Longrightarrow> f(?l := None) = f" by auto
  then have s: "?S = [] \<and> area_files a v f = f
        \<or> ?S = [Unlink ?l] \<and> area_files a v f = f(?l := None)
        \<or> ?S = [Open_w ?l, Write ?l v] \<and> area_files a v f = f(?l \<mapsto> v)"
    by (simp add: area_files_def)
  from e h s show ?thesis by blast
qed

lemma area_replay: "replay (area_events a v f) f = area_files a v f"
proof -
  from area_events_shape[of a v f] obtain H S where hs:
    "area_events a v f = H @ S" "\<forall>e\<in>set H. \<forall>p. \<not> store_event p e"
    "S = [] \<and> area_files a v f = f
     \<or> S = [Unlink (local_version_file a)] \<and> area_files a v f = f(local_version_file a := None)
     \<or> S = [Open_w (local_version_file a), Write (local_version_file a) v]
       \<and> area_files a v f = f(local_version_file a \<mapsto> v)"
    by blast
  have "replay (area_events a v f) f = replay S f"
    by (simp add: hs(1) replay_append replay_no_store[OF hs(2)])
  with hs(3) show ?thesis by (auto simp: replay_simps)
qed

lemma area_prefix:
  "replay (take k (area_events a v f)) f = f
   \<or> replay (take k (area_events a v f)) f = f(local_version_file a \<mapsto> [])
   \<or> replay (take k (area_events a v f)) f = area_files a v f"
proof -
  let ?l = "local_version_file a"
  from area_events_shape[of a v f] obtain H S where hs:
    "area_events a v f = H @ S" "\<forall>e\<in>set H. \<forall>p. \<not> store_event p e"
    "S = [] \<and> area_files a v f = f
     \<or> S = [Unlink ?l] \<and> area_files a v f = f(?l := None)
     \<or> S = [Open_w ?l, Write ?l v] \<and> area_files a v f = f(?l \<mapsto> v)"
    by blast
  have r: "replay (take k (area_events a v f)) f = replay (take (k - length H) S) f"
    by (simp only: hs(1) replay_take_append replay_take_no_store[OF hs(2)])
  from hs(3) show ?thesis
  proof (elim disjE conjE)
    assume "S = []" "area_files a v f = f"
    with r show ?thesis by (simp add: replay_simps)
  next
    assume s: "S = [Unlink ?l]" "area_files a v f = f(?l := None)"
    from take_one[of "k - length H" "Unlink ?l"] r s show ?thesis
      by (auto simp: replay_simps)
  next
    assume s: "S = [Open_w ?l, Write ?l v]" "area_files a v f = f(?l \<mapsto> v)"
    from take_two[of "k - length H" "Open_w ?l" "Write ?l v"] r s show ?thesis
      by (auto simp: replay_simps)
  qed
qed


lemma replay_fail_events: "replay (area_fail_events n a g) f = f"
  using area_fail_events_no_store[of _ n a g] by (intro replay_no_store) blast

lemma replay_take_fail_events: "replay (take k (area_fail_events n a g)) f = f"
  using area_fail_events_no_store[of _ n a g] by (intro replay_take_no_store) blast

lemma run_replay: "files (run_state n s) = replay (run_events n s) (files s)"
proof (cases "area_token n ''planet''")
  case (Inl e)
  then show ?thesis
    by (simp add: run_files_eq run_events_eq replay_fail_events)
next
  case p: (Inr v)
  have ne: "''planet'' \<noteq> ''monaco''" by simp
  show ?thesis
  proof (cases "area_token n ''monaco''")
    case (Inl e)
    with p show ?thesis
      by (simp add: run_files_eq run_events_eq replay_append area_replay replay_fail_events)
  next
    case (Inr w)
    have "replay (area_events ''monaco'' w (files s)) (area_files ''planet'' v (files s))
        = area_files ''monaco'' w (area_files ''planet'' v (files s))"
      using area_replay[of "''monaco''" w "area_files ''planet'' v (files s)"]
      by (simp only: area_events_frame[OF ne])
    with p Inr show ?thesis
      by (simp add: run_files_eq run_events_eq replay_append area_replay)
  qed
qed

lemma three_pointwise:
  assumes "h = f \<or> h = f(l \<mapsto> []) \<or> h = g"
  shows "h q = f q \<or> h q = g q \<or> (h q = Some [] \<and> q = l)"
  using assms by (auto split: if_splits)

lemma run_prefix:
  "replay (take k (run_events n s)) (files s) q = files s q
   \<or> replay (take k (run_events n s)) (files s) q = files (run_state n s) q
   \<or> (replay (take k (run_events n s)) (files s) q = Some []
      \<and> q \<in> local_version_file ` set areas)"
proof (cases "area_token n ''planet''")
  case (Inl e)
  then show ?thesis by (simp add: run_events_eq replay_take_fail_events)
next
  case p: (Inr v)
  let ?f = "files s"
  let ?g = "area_files ''planet'' v ?f"
  let ?lp = "local_version_file ''planet''"
  let ?lm = "local_version_file ''monaco''"
  let ?Ep = "area_events ''planet'' v ?f"
  have ne: "''planet'' \<noteq> ''monaco''" by simp
  have lp: "?lp \<in> local_version_file ` set areas" and lm: "?lm \<in> local_version_file ` set areas"
    by (simp_all add: areas_def)
  from three_pointwise[OF area_prefix[of k "''planet''" v ?f], of q]
  have hp: "replay (take k ?Ep) ?f q = ?f q \<or> replay (take k ?Ep) ?f q = ?g q
      \<or> (replay (take k ?Ep) ?f q = Some [] \<and> q = ?lp)" .
  show ?thesis
  proof (cases "area_token n ''monaco''")
    case (Inl e)
    have fin: "files (run_state n s) = ?g" using p Inl by (simp add: run_files_eq)
    have "replay (take k (run_events n s)) ?f = replay (take k ?Ep) ?f"
      using p Inl by (simp only: run_events_eq sum.case replay_take_append
          replay_take_fail_events)
    with hp fin lp show ?thesis by auto
  next
    case m: (Inr w)
    let ?h = "area_files ''monaco'' w ?g"
    let ?Em = "area_events ''monaco'' w ?f"
    have fin: "files (run_state n s) = ?h" using p m by (simp add: run_files_eq)
    have ev: "run_events n s = ?Ep @ ?Em" using p m by (simp add: run_events_eq)
    have gq: "?g q = ?f q \<or> ?g q = ?h q"
    proof (cases "q = ?lp")
      case True
      then have "?h q = ?g q" by (simp add: area_files_other local_inj)
      then show ?thesis by simp
    next
      case False
      then show ?thesis by (simp add: area_files_other)
    qed
    show ?thesis
    proof (cases "k \<le> length ?Ep")
      case True
      then have "replay (take k (run_events n s)) ?f = replay (take k ?Ep) ?f"
        by (simp add: ev replay_def)
      with hp gq fin lp show ?thesis by auto
    next
      case False
      then have "replay (take k (run_events n s)) ?f = replay (take (k - length ?Ep) ?Em) ?g"
        by (simp add: ev replay_append area_replay)
      then have r: "replay (take k (run_events n s)) ?f
          = replay (take (k - length ?Ep) (area_events ''monaco'' w ?g)) ?g"
        by (simp only: area_events_frame[OF ne])
      from three_pointwise[OF area_prefix[of "k - length ?Ep" "''monaco''" w ?g], of q]
      have "replay (take k (run_events n s)) ?f q = ?g q
          \<or> replay (take k (run_events n s)) ?f q = ?h q
          \<or> (replay (take k (run_events n s)) ?f q = Some [] \<and> q = ?lm)"
        by (simp only: r)
      with gq fin lm show ?thesis by auto
    qed
  qed
qed

text \<open>
  Area planet has the record v3, the remote version is v4 and its metadata file is there.
  The run replaces v3 by v4. Its sixth event opens the record for writing, which truncates
  the file: a run interrupted after that event, before the write, leaves a record that is
  empty, neither v3 nor v4.
\<close>

theorem record_write_counterexample:
  "files (state_of [(local_version_file ''planet'', ''v3''), (mnt_file ''planet'' ''v4'', ''{}'')])
     (local_version_file ''planet'') = Some ''v3''
   \<and> files (run_state (net_of (Inr (Response 200 ''v4'')) (Inr (Response 200 [])))
        (state_of [(local_version_file ''planet'', ''v3''), (mnt_file ''planet'' ''v4'', ''{}'')]))
        (local_version_file ''planet'') = Some ''v4''
   \<and> take 6 (run_events (net_of (Inr (Response 200 ''v4'')) (Inr (Response 200 [])))
        (state_of [(local_version_file ''planet'', ''v3''), (mnt_file ''planet'' ''v4'', ''{}'')]))
       = [Get (version_url ''planet''), Print ''  remote version for planet: v4'',
          Exists (local_version_file ''planet'') True, Read (local_version_file ''planet''),
          Exists (mnt_file ''planet'' ''v4'') True, Open_w (local_version_file ''planet'')]
   \<and> replay (take 6 (run_events (net_of (Inr (Response 200 ''v4'')) (Inr (Response 200 [])))
        (state_of [(local_version_file ''planet'', ''v3''), (mnt_file ''planet'' ''v4'', ''{}'')])))
        (files (state_of [(local_version_file ''planet'', ''v3''),
                          (mnt_file ''planet'' ''v4'', ''{}'')]))
        (local_version_file ''planet'') = Some []"
  by (simp add: run_defs world_defs replay_def apply_event_def)

text \<open>
  Claim C8, as amended. A record is written in place: \<open>write_file\<close> is the opening of the
  record itself for writing, which leaves it empty, followed by the write of the token;
  there is no temporary file and no rename. The files at the end of a run are those that
  the replay of its events gives, and a run interrupted after any number of its events
  leaves each path with the content it had before the run, or the content it has at the
  end of the run, or, for the record of an area only, the empty content of a record that
  is open for writing and not yet written.
\<close>

theorem record_written_in_place:
  "write_file p v s = fp_write p v (snd (open_w p s))
   \<and> files (snd (open_w p s)) p = Some []
   \<and> files (snd (write_file p v s)) p = Some v
   \<and> files (run_state n s) = replay (run_events n s) (files s)
   \<and> (\<forall>k q. replay (take k (run_events n s)) (files s) q = files s q
          \<or> replay (take k (run_events n s)) (files s) q = files (run_state n s) q
          \<or> (replay (take k (run_events n s)) (files s) q = Some []
             \<and> q \<in> local_version_file ` set areas))"
proof -
  have "write_file p v s = fp_write p v (snd (open_w p s))"
    "files (snd (open_w p s)) p = Some []"
    "files (snd (write_file p v s)) p = Some v"
    by (simp_all add: write_file_def bind_io_def open_w_def fp_write_def emit_def)
  with run_replay[of n s] run_prefix[of _ n s] show ?thesis by blast
qed

theorem record_written_in_place_witness:
  "replay (take 9 (run_events (net_of (Inr (Response 200 [])) (Inr (Response 200 ''v7'')))
        (state_of [(mnt_file ''monaco'' ''v7'', ''{}'')])))
        (files (state_of [(mnt_file ''monaco'' ''v7'', ''{}'')]))
        (local_version_file ''monaco'') = Some []
   \<and> local_version_file ''monaco'' \<in> local_version_file ` set areas
   \<and> files (run_state (net_of (Inr (Response 200 [])) (Inr (Response 200 ''v7'')))
        (state_of [(mnt_file ''monaco'' ''v7'', ''{}'')]))
       = replay (run_events (net_of (Inr (Response 200 [])) (Inr (Response 200 ''v7'')))
           (state_of [(mnt_file ''monaco'' ''v7'', ''{}'')]))
           (files (state_of [(mnt_file ''monaco'' ''v7'', ''{}'')]))"
proof -
  let ?n = "net_of (Inr (Response 200 [])) (Inr (Response 200 ''v7''))"
  let ?s = "state_of [(mnt_file ''monaco'' ''v7'', ''{}'')]"
  have a: "replay (take 9 (run_events ?n ?s)) (files ?s) (local_version_file ''monaco'') = Some []"
    by (simp add: run_defs world_defs replay_def apply_event_def)
  have b: "local_version_file ''monaco'' \<in> local_version_file ` set areas"
    by (simp add: areas_def)
  from record_written_in_place[of "local_version_file ''monaco''" "''v7''" ?s ?n]
  have "files (run_state ?n ?s) = replay (run_events ?n ?s) (files ?s)" by blast
  with a b show ?thesis by blast
qed

end
